theory Spec2Isabelle
  imports Main "HOL-Library.AList"
begin

section \<open>Python values and exceptions\<close>

text \<open>
  The exception classes that the handlers of \<^verbatim>\<open>agent/client.py\<close> and
  \<^verbatim>\<open>agent/host.py\<close> tell apart. \<open>RuntimeError\<close> and \<open>OtherException\<close> (any other
  class derived from \<open>Exception\<close>, such as the SDK's \<open>McpError\<close> or \<open>OSError\<close>) are
  subclasses of \<open>Exception\<close>. \<open>CancelledError\<close> (asyncio, Python 3.8 and later),
  \<open>GeneratorExit\<close>, \<open>KeyboardInterrupt\<close> and \<open>SystemExit\<close> derive from \<open>BaseException\<close>
  only. An exception value carries its class and its \<open>str()\<close>.
\<close>

datatype exc_class =
    Exception | RuntimeError | OtherException
  | CancelledError | GeneratorExit | KeyboardInterrupt | SystemExit

datatype pyexc = PyExc exc_class string

fun exc_str :: "pyexc \<Rightarrow> string" where
  "exc_str (PyExc c m) = m"

text \<open>\<^verbatim>\<open>isinstance(e, k)\<close> for the classes above.\<close>

fun isinstance :: "pyexc \<Rightarrow> exc_class \<Rightarrow> bool" where
  "isinstance (PyExc c m) k =
     (c = k \<or> (k = Exception \<and> (c = RuntimeError \<or> c = OtherException)))"

text \<open>
  The values that travel through the client: JSON-like data, and \<open>PModel b r\<close>, an
  object that has a \<^verbatim>\<open>model_dump\<close> method, with its truth value \<open>b\<close> and with what a
  call of the method does: it raises, or it returns a value. A Pydantic model with the
  dump \<open>d\<close> is \<open>PModel True (Inr (PDict d))\<close>. A dict is an association list in
  insertion order.
\<close>

datatype pyval =
    PNone | PBool bool | PInt int | PStr string
  | PList "pyval list" | PDict "(string \<times> pyval) list" | PModel bool "pyexc + pyval"

type_synonym dict = "(string \<times> pyval) list"

text \<open>Python truth value.\<close>

fun truthy :: "pyval \<Rightarrow> bool" where
  "truthy PNone = False"
| "truthy (PBool b) = b"
| "truthy (PInt i) = (i \<noteq> 0)"
| "truthy (PStr s) = (s \<noteq> [])"
| "truthy (PList xs) = (xs \<noteq> [])"
| "truthy (PDict kvs) = (kvs \<noteq> [])"
| "truthy (PModel b r) = b"

fun hasattr_model_dump :: "pyval \<Rightarrow> bool" where
  "hasattr_model_dump (PModel b r) = True"
| "hasattr_model_dump v = False"

fun isinstance_dict :: "pyval \<Rightarrow> bool" where
  "isinstance_dict (PDict kvs) = True"
| "isinstance_dict v = False"

text \<open>\<^verbatim>\<open>v.model_dump()\<close>: an AttributeError on a value without the method.\<close>

fun model_dump :: "pyval \<Rightarrow> pyexc + pyval" where
  "model_dump (PModel b r) = r"
| "model_dump v = Inl (PyExc OtherException ''object has no attribute 'model_dump' '')"

text \<open>\<^verbatim>\<open>d[k] = v\<close> and \<^verbatim>\<open>d.get(k)\<close> on a dict.\<close>

definition dict_set :: "dict \<Rightarrow> string \<Rightarrow> pyval \<Rightarrow> dict" where
  "dict_set d k v = AList.update k v d"

definition dict_get :: "dict \<Rightarrow> string \<Rightarrow> pyval option" where
  "dict_get d k = map_of d k"

section \<open>The MCP SDK as an environment\<close>

text \<open>
  The objects of the SDK that the client holds: the context manager
  \<^verbatim>\<open>stdio_client(StdioServerParameters(command=sys.executable, args=[script]))\<close>, named by
  its script, and \<^verbatim>\<open>ClientSession(read, write)\<close>, named by its two streams.
\<close>

datatype StdioContext = stdio_client string

datatype ClientSession = ClientSession nat nat

text \<open>What the SDK hands back for one tool, one content part, and one tool call.\<close>

record sdk_tool =
  tool_name :: string
  tool_description :: "string option"
  tool_inputSchema :: pyval

datatype content_item =
    TextItem string
  | ImageItem pyval pyval
  | UnknownItem

record sdk_call_result =
  result_content :: "content_item list"
  result_isError :: bool

text \<open>
  The awaited SDK calls. Each is a transition of an SDK state of any type \<open>'w\<close> (the
  subprocesses, the pipes, the remote servers) that returns a value or raises.
\<close>

record 'w sdk =
  stdio_aenter :: "StdioContext \<Rightarrow> 'w \<Rightarrow> (pyexc + nat \<times> nat) \<times> 'w"
  stdio_aexit :: "StdioContext \<Rightarrow> 'w \<Rightarrow> (pyexc + unit) \<times> 'w"
  session_aenter :: "ClientSession \<Rightarrow> 'w \<Rightarrow> (pyexc + ClientSession) \<times> 'w"
  session_aexit :: "ClientSession \<Rightarrow> 'w \<Rightarrow> (pyexc + unit) \<times> 'w"
  session_initialize :: "ClientSession \<Rightarrow> 'w \<Rightarrow> (pyexc + unit) \<times> 'w"
  session_list_tools :: "ClientSession \<Rightarrow> 'w \<Rightarrow> (pyexc + sdk_tool list) \<times> 'w"
  session_call_tool :: "ClientSession \<Rightarrow> string \<Rightarrow> pyval \<Rightarrow> 'w \<Rightarrow> (pyexc + sdk_call_result) \<times> 'w"

text \<open>The calls made to the SDK, in the order they are made.\<close>

datatype call =
    StdioEnter StdioContext
  | StdioExit StdioContext
  | SessionEnter ClientSession
  | SessionExit ClientSession
  | Initialize ClientSession
  | ListTools ClientSession
  | CallTool ClientSession string pyval

text \<open>
  The world outside a client: the SDK state, the log of the calls made so far, and
  the store of the tool dicts (an address is an index; a dict is allocated at the end).
\<close>

record 'w world =
  sdk_state :: 'w
  trace :: "call list"
  heap :: "dict list"

definition await :: "call \<Rightarrow> ('w \<Rightarrow> (pyexc + 'a) \<times> 'w) \<Rightarrow> 'w world \<Rightarrow> (pyexc + 'a) \<times> 'w world" where
  "await ev f w =
     (case f (sdk_state w) of
        (r, s') \<Rightarrow> (r, w\<lparr>sdk_state := s', trace := trace w @ [ev]\<rparr>))"

definition alloc :: "dict \<Rightarrow> 'w world \<Rightarrow> nat \<times> 'w world" where
  "alloc d w = (length (heap w), w\<lparr>heap := heap w @ [d]\<rparr>)"

section \<open>MCPClient\<close>

record MCPClient =
  server_script :: string
  session :: "ClientSession option"
  stdio_context :: "StdioContext option"
  session_context :: "ClientSession option"
  tools_cache :: "nat list option"
  initialized :: bool

definition MCPClient_init :: "string \<Rightarrow> MCPClient" where
  "MCPClient_init script =
     \<lparr>server_script = script, session = None, stdio_context = None,
      session_context = None, tools_cache = None, initialized = False\<rparr>"

text \<open>The handler of both release steps:
  \<^verbatim>\<open>except (asyncio.CancelledError, GeneratorExit, RuntimeError, Exception)\<close>.\<close>

definition cleanup_catches :: "pyexc \<Rightarrow> bool" where
  "cleanup_catches e =
     (isinstance e CancelledError \<or> isinstance e GeneratorExit \<or>
      isinstance e RuntimeError \<or> isinstance e Exception)"

text \<open>The first block of \<^verbatim>\<open>_cleanup\<close>: the session context.\<close>

definition cleanup_session ::
  "'w sdk \<Rightarrow> MCPClient \<times> 'w world \<Rightarrow> (pyexc + unit) \<times> MCPClient \<times> 'w world" where
  "cleanup_session sdk cw =
     (case cw of (c, w) \<Rightarrow>
        (case session_context c of
           None \<Rightarrow> (Inr (), c, w)
         | Some sc \<Rightarrow>
             (let c1 = c\<lparr>session_context := None, session := None\<rparr> in
              (case await (SessionExit sc) (session_aexit sdk sc) w of
                 (Inl e, w1) \<Rightarrow>
                   if cleanup_catches e then (Inr (), c1, w1) else (Inl e, c1, w1)
               | (Inr u, w1) \<Rightarrow> (Inr (), c1, w1)))))"

text \<open>The second block: the stdio context.\<close>

definition cleanup_stdio ::
  "'w sdk \<Rightarrow> MCPClient \<times> 'w world \<Rightarrow> (pyexc + unit) \<times> MCPClient \<times> 'w world" where
  "cleanup_stdio sdk cw =
     (case cw of (c, w) \<Rightarrow>
        (case stdio_context c of
           None \<Rightarrow> (Inr (), c, w)
         | Some st \<Rightarrow>
             (let c1 = c\<lparr>stdio_context := None\<rparr> in
              (case await (StdioExit st) (stdio_aexit sdk st) w of
                 (Inl e, w1) \<Rightarrow>
                   if cleanup_catches e then (Inr (), c1, w1) else (Inl e, c1, w1)
               | (Inr u, w1) \<Rightarrow> (Inr (), c1, w1)))))"

text \<open>\<^verbatim>\<open>MCPClient._cleanup\<close>.\<close>

definition cleanup ::
  "'w sdk \<Rightarrow> MCPClient \<times> 'w world \<Rightarrow> (pyexc + unit) \<times> MCPClient \<times> 'w world" where
  "cleanup sdk cw =
     (case cleanup_session sdk cw of
        (Inl e, c1, w1) \<Rightarrow> (Inl e, c1, w1)
      | (Inr u, c1, w1) \<Rightarrow>
          (case cleanup_stdio sdk (c1, w1) of
             (Inl e, c2, w2) \<Rightarrow> (Inl e, c2, w2)
           | (Inr u, c2, w2) \<Rightarrow>
               (Inr (), c2\<lparr>initialized := False, tools_cache := None\<rparr>, w2)))"

text \<open>\<^verbatim>\<open>MCPClient.disconnect\<close>.\<close>

definition disconnect ::
  "'w sdk \<Rightarrow> MCPClient \<times> 'w world \<Rightarrow> (pyexc + unit) \<times> MCPClient \<times> 'w world" where
  "disconnect sdk cw = cleanup sdk cw"

text \<open>The \<^verbatim>\<open>try\<close> body of \<^verbatim>\<open>MCPClient.connect\<close>. Each context object is stored
  in the client before it is entered.\<close>

definition connect_body ::
  "'w sdk \<Rightarrow> MCPClient \<times> 'w world \<Rightarrow> (pyexc + unit) \<times> MCPClient \<times> 'w world" where
  "connect_body sdk cw =
     (case cw of (c, w) \<Rightarrow>
        (let st = stdio_client (server_script c);
             c1 = c\<lparr>stdio_context := Some st\<rparr> in
         (case await (StdioEnter st) (stdio_aenter sdk st) w of
            (Inl e, w1) \<Rightarrow> (Inl e, c1, w1)
          | (Inr (rd, wr), w1) \<Rightarrow>
              (let sc = ClientSession rd wr;
                   c2 = c1\<lparr>session_context := Some sc\<rparr> in
               (case await (SessionEnter sc) (session_aenter sdk sc) w1 of
                  (Inl e, w2) \<Rightarrow> (Inl e, c2, w2)
                | (Inr s, w2) \<Rightarrow>
                    (let c3 = c2\<lparr>session := Some s\<rparr> in
                     (case await (Initialize s) (session_initialize sdk s) w2 of
                        (Inl e, w3) \<Rightarrow> (Inl e, c3, w3)
                      | (Inr u, w3) \<Rightarrow> (Inr (), c3\<lparr>initialized := True\<rparr>, w3))))))))"

text \<open>The error that \<^verbatim>\<open>connect\<close> raises from its handler.\<close>

definition connect_error :: "pyexc \<Rightarrow> pyexc" where
  "connect_error e = PyExc Exception (''Failed to connect to MCP server: '' @ exc_str e)"

text \<open>\<^verbatim>\<open>MCPClient.connect\<close>. The handler is \<^verbatim>\<open>except Exception as e\<close>; an
  exception raised by \<^verbatim>\<open>_cleanup\<close> inside the handler replaces the wrapped one.\<close>

definition connect ::
  "'w sdk \<Rightarrow> MCPClient \<times> 'w world \<Rightarrow> (pyexc + unit) \<times> MCPClient \<times> 'w world" where
  "connect sdk cw =
     (case cw of (c, w) \<Rightarrow>
        if session c \<noteq> None then (Inr (), c, w)
        else
          (case connect_body sdk (c, w) of
             (Inr u, c1, w1) \<Rightarrow> (Inr (), c1, w1)
           | (Inl e, c1, w1) \<Rightarrow>
               if isinstance e Exception then
                 (case cleanup sdk (c1, w1) of
                    (Inl e2, c2, w2) \<Rightarrow> (Inl e2, c2, w2)
                  | (Inr u, c2, w2) \<Rightarrow> (Inl (connect_error e), c2, w2))
               else (Inl e, c1, w1)))"

text \<open>The error raised by \<^verbatim>\<open>get_tools\<close> and \<^verbatim>\<open>call_tool\<close> on a client that is
  not connected (the spec's \<open>NotConnectedError\<close>): the builtin \<open>Exception\<close> with a fixed
  message.\<close>

definition NotConnectedError :: pyexc where
  "NotConnectedError = PyExc Exception ''Client is not connected. Call connect() first.''"

text \<open>Lines 95 to 103 of \<^verbatim>\<open>get_tools\<close>: the normalization of one \<^verbatim>\<open>inputSchema\<close>.\<close>

definition input_schema :: "pyval \<Rightarrow> pyexc + pyval" where
  "input_schema s =
     (if truthy s then
        (if hasattr_model_dump s then model_dump s
         else if isinstance_dict s then Inr s
         else Inr (PDict []))
      else Inr (PDict []))"

text \<open>\<^verbatim>\<open>tool.description or ""\<close>.\<close>

definition description_or_empty :: "string option \<Rightarrow> string" where
  "description_or_empty d = (case d of None \<Rightarrow> [] | Some x \<Rightarrow> if x \<noteq> [] then x else [])"

definition tool_dict :: "sdk_tool \<Rightarrow> pyexc + dict" where
  "tool_dict t =
     (case input_schema (tool_inputSchema t) of
        Inl e \<Rightarrow> Inl e
      | Inr sch \<Rightarrow>
          Inr [(''name'', PStr (tool_name t)),
               (''description'', PStr (description_or_empty (tool_description t))),
               (''inputSchema'', sch)])"

text \<open>The loop \<^verbatim>\<open>for tool in result.tools\<close>. The accumulator is the list object
  bound to \<^verbatim>\<open>self._tools_cache\<close>: what was appended before a raise stays in it.\<close>

fun convert_tools ::
  "sdk_tool list \<Rightarrow> nat list \<Rightarrow> 'w world \<Rightarrow> (pyexc + unit) \<times> nat list \<times> 'w world" where
  "convert_tools [] acc w = (Inr (), acc, w)"
| "convert_tools (t # ts) acc w =
     (case tool_dict t of
        Inl e \<Rightarrow> (Inl e, acc, w)
      | Inr d \<Rightarrow> (case alloc d w of (a, w1) \<Rightarrow> convert_tools ts (acc @ [a]) w1))"

text \<open>The \<^verbatim>\<open>try\<close> body of \<^verbatim>\<open>get_tools\<close>, for the session \<open>s\<close>.\<close>

definition fetch_tools ::
  "'w sdk \<Rightarrow> ClientSession \<Rightarrow> MCPClient \<times> 'w world \<Rightarrow> (pyexc + unit) \<times> MCPClient \<times> 'w world" where
  "fetch_tools sdk s cw =
     (case cw of (c, w) \<Rightarrow>
        (case await (ListTools s) (session_list_tools sdk s) w of
           (Inl e, w1) \<Rightarrow> (Inl e, c, w1)
         | (Inr tools, w1) \<Rightarrow>
             (if tools \<noteq> [] then
                (case convert_tools tools [] w1 of
                   (r, acc, w2) \<Rightarrow> (r, c\<lparr>tools_cache := Some acc\<rparr>, w2))
              else (Inr (), c\<lparr>tools_cache := Some []\<rparr>, w1))))"

definition get_tools_error :: "pyexc \<Rightarrow> pyexc" where
  "get_tools_error e = PyExc Exception (''Failed to get tools: '' @ exc_str e)"

text \<open>\<^verbatim>\<open>MCPClient.get_tools\<close>. It returns \<^verbatim>\<open>self._tools_cache\<close>: the list of the
  addresses of the tool dicts, or \<open>None\<close>.\<close>

definition get_tools ::
  "'w sdk \<Rightarrow> MCPClient \<times> 'w world \<Rightarrow> (pyexc + nat list option) \<times> MCPClient \<times> 'w world" where
  "get_tools sdk cw =
     (case cw of (c, w) \<Rightarrow>
        (case session c of
           None \<Rightarrow> (Inl NotConnectedError, c, w)
         | Some s \<Rightarrow>
             if \<not> initialized c then (Inl NotConnectedError, c, w)
             else if tools_cache c = None then
               (case fetch_tools sdk s (c, w) of
                  (Inl e, c1, w1) \<Rightarrow>
                    if isinstance e Exception then (Inl (get_tools_error e), c1, w1)
                    else (Inl e, c1, w1)
                | (Inr u, c1, w1) \<Rightarrow> (Inr (tools_cache c1), c1, w1))
             else (Inr (tools_cache c), c, w)))"

text \<open>The conversion of a tool call's result in \<^verbatim>\<open>call_tool\<close>.\<close>

fun convert_content :: "content_item list \<Rightarrow> pyval list" where
  "convert_content [] = []"
| "convert_content (TextItem t # xs) =
     PDict [(''type'', PStr ''text''), (''text'', PStr t)] # convert_content xs"
| "convert_content (ImageItem d m # xs) =
     PDict [(''type'', PStr ''image''), (''data'', d), (''mimeType'', m)] # convert_content xs"
| "convert_content (UnknownItem # xs) = convert_content xs"

definition result_dict :: "sdk_call_result \<Rightarrow> dict" where
  "result_dict r =
     (let d = [(''content'', PList (convert_content (result_content r)))] in
      if result_isError r then dict_set d ''isError'' (PBool True) else d)"

definition call_tool_error :: "string \<Rightarrow> pyexc \<Rightarrow> pyexc" where
  "call_tool_error name e =
     PyExc Exception (''Failed to call tool '' @ [CHR 0x27] @ name @ [CHR 0x27] @ '': '' @ exc_str e)"

text \<open>\<^verbatim>\<open>MCPClient.call_tool\<close>.\<close>

definition call_tool ::
  "'w sdk \<Rightarrow> string \<Rightarrow> pyval \<Rightarrow> MCPClient \<times> 'w world \<Rightarrow> (pyexc + dict) \<times> MCPClient \<times> 'w world" where
  "call_tool sdk name arguments cw =
     (case cw of (c, w) \<Rightarrow>
        (case session c of
           None \<Rightarrow> (Inl NotConnectedError, c, w)
         | Some s \<Rightarrow>
             if \<not> initialized c then (Inl NotConnectedError, c, w)
             else
               (let a = (if truthy arguments then arguments else PDict []) in
                (case await (CallTool s name a) (session_call_tool sdk s name a) w of
                   (Inl e, w1) \<Rightarrow>
                     if isinstance e Exception then (Inl (call_tool_error name e), c, w1)
                     else (Inl e, c, w1)
                 | (Inr r, w1) \<Rightarrow> (Inr (result_dict r), c, w1)))))"

text \<open>The SDK calls that \<^verbatim>\<open>_cleanup\<close> makes for a client, in order.\<close>

definition release_calls :: "MCPClient \<Rightarrow> call list" where
  "release_calls c =
     (case session_context c of None \<Rightarrow> [] | Some sc \<Rightarrow> [SessionExit sc]) @
     (case stdio_context c of None \<Rightarrow> [] | Some st \<Rightarrow> [StdioExit st])"

text \<open>An SDK whose release steps raise nothing but what the handler of \<^verbatim>\<open>_cleanup\<close>
  catches.\<close>

definition release_faults_caught :: "'w sdk \<Rightarrow> bool" where
  "release_faults_caught sdk =
     ((\<forall>sc s e. fst (session_aexit sdk sc s) = Inl e \<longrightarrow> cleanup_catches e) \<and>
      (\<forall>st s e. fst (stdio_aexit sdk st s) = Inl e \<longrightarrow> cleanup_catches e))"

section \<open>ResearchHost\<close>

text \<open>The registry \<^verbatim>\<open>self.mcp_clients\<close> of the host: a dict from server script to
  client, in insertion order. The other fields of the host (the LLM client, the model
  name, the system prompt, the print flags) take no part in what follows.\<close>

record ResearchHost =
  mcp_clients :: "(string \<times> MCPClient) list"

text \<open>\<^verbatim>\<open>ResearchHost._ensure_clients_connected\<close>.\<close>

fun ensure_clients_connected ::
  "'w sdk \<Rightarrow> string list \<Rightarrow> ResearchHost \<times> 'w world \<Rightarrow> (pyexc + unit) \<times> ResearchHost \<times> 'w world" where
  "ensure_clients_connected sdk [] hw = (Inr (), hw)"
| "ensure_clients_connected sdk (script # rest) hw =
     (case hw of (h, w) \<Rightarrow>
        (case map_of (mcp_clients h) script of
           Some c \<Rightarrow> ensure_clients_connected sdk rest (h, w)
         | None \<Rightarrow>
             (case connect sdk (MCPClient_init script, w) of
                (Inl e, c1, w1) \<Rightarrow> (Inl e, h, w1)
              | (Inr u, c1, w1) \<Rightarrow>
                  ensure_clients_connected sdk rest
                    (h\<lparr>mcp_clients := AList.update script c1 (mcp_clients h)\<rparr>, w1))))"

text \<open>The loop \<^verbatim>\<open>for tool in tools: tool['_server'] = script\<close>, on the dicts at the
  addresses \<open>tools\<close>. Python has no dangling reference: an address in a cache is
  allocated (see \<open>registry_ok\<close> below), and the update of a list changes nothing at an
  index beyond its end.\<close>

fun tag_tools :: "string \<Rightarrow> nat list \<Rightarrow> 'w world \<Rightarrow> 'w world" where
  "tag_tools script [] w = w"
| "tag_tools script (a # as) w =
     tag_tools script as
       (w\<lparr>heap := (heap w)[a := dict_set (heap w ! a) ''_server'' (PStr script)]\<rparr>)"

text \<open>The loop over \<^verbatim>\<open>server_scripts\<close> in \<^verbatim>\<open>_get_tools_from_clients\<close>, with the
  list \<^verbatim>\<open>all_tools\<close> built so far. Iterating over \<open>None\<close> raises a TypeError.\<close>

fun collect_tools ::
  "'w sdk \<Rightarrow> string list \<Rightarrow> nat list \<Rightarrow> ResearchHost \<times> 'w world \<Rightarrow>
     (pyexc + nat list) \<times> ResearchHost \<times> 'w world" where
  "collect_tools sdk [] all_tools hw = (Inr all_tools, hw)"
| "collect_tools sdk (script # rest) all_tools hw =
     (case hw of (h, w) \<Rightarrow>
        (case map_of (mcp_clients h) script of
           None \<Rightarrow> collect_tools sdk rest all_tools (h, w)
         | Some client \<Rightarrow>
             (case get_tools sdk (client, w) of
                (Inl e, c1, w1) \<Rightarrow>
                  (Inl e, h\<lparr>mcp_clients := AList.update script c1 (mcp_clients h)\<rparr>, w1)
              | (Inr None, c1, w1) \<Rightarrow>
                  (Inl (PyExc OtherException ''NoneType object is not iterable''),
                   h\<lparr>mcp_clients := AList.update script c1 (mcp_clients h)\<rparr>, w1)
              | (Inr (Some tools), c1, w1) \<Rightarrow>
                  collect_tools sdk rest (all_tools @ tools)
                    (h\<lparr>mcp_clients := AList.update script c1 (mcp_clients h)\<rparr>,
                     tag_tools script tools w1))))"

text \<open>\<^verbatim>\<open>ResearchHost._get_tools_from_clients\<close>.\<close>

definition get_tools_from_clients ::
  "'w sdk \<Rightarrow> string list \<Rightarrow> ResearchHost \<times> 'w world \<Rightarrow>
     (pyexc + nat list) \<times> ResearchHost \<times> 'w world" where
  "get_tools_from_clients sdk server_scripts hw =
     (case ensure_clients_connected sdk server_scripts hw of
        (Inl e, hw1) \<Rightarrow> (Inl e, hw1)
      | (Inr u, hw1) \<Rightarrow> collect_tools sdk server_scripts [] hw1)"

text \<open>The dicts that a list of addresses names.\<close>

definition deref :: "'w world \<Rightarrow> nat list \<Rightarrow> dict list" where
  "deref w as = map (\<lambda>a. heap w ! a) as"

text \<open>Lines 208 to 213 of \<^verbatim>\<open>run_experiment\<close>: the server of the tool that the model
  selected; \<open>PNone\<close> is Python's \<open>None\<close>.\<close>

fun tool_server :: "dict list \<Rightarrow> string \<Rightarrow> pyval" where
  "tool_server [] name = PNone"
| "tool_server (tool # rest) name =
     (if dict_get tool ''name'' = Some (PStr name)
      then (case dict_get tool ''_server'' of None \<Rightarrow> PNone | Some v \<Rightarrow> v)
      else tool_server rest name)"

text \<open>The loop of \<^verbatim>\<open>ResearchHost.cleanup\<close> over the snapshot
  \<^verbatim>\<open>list(self.mcp_clients.items())\<close>; its handler is \<^verbatim>\<open>except Exception\<close>. A client
  is an object that the registry shares, so what \<^verbatim>\<open>disconnect\<close> changes shows there.\<close>

fun disconnect_clients ::
  "'w sdk \<Rightarrow> (string \<times> MCPClient) list \<Rightarrow> ResearchHost \<times> 'w world \<Rightarrow>
     (pyexc + unit) \<times> ResearchHost \<times> 'w world" where
  "disconnect_clients sdk [] hw = (Inr (), hw)"
| "disconnect_clients sdk ((script, client) # rest) hw =
     (case hw of (h, w) \<Rightarrow>
        (case disconnect sdk (client, w) of
           (Inl e, c1, w1) \<Rightarrow>
             if isinstance e Exception
             then disconnect_clients sdk rest
                    (h\<lparr>mcp_clients := AList.update script c1 (mcp_clients h)\<rparr>, w1)
             else (Inl e, h\<lparr>mcp_clients := AList.update script c1 (mcp_clients h)\<rparr>, w1)
         | (Inr u, c1, w1) \<Rightarrow>
             disconnect_clients sdk rest
               (h\<lparr>mcp_clients := AList.update script c1 (mcp_clients h)\<rparr>, w1)))"

text \<open>\<^verbatim>\<open>ResearchHost.cleanup\<close>.\<close>

definition host_cleanup ::
  "'w sdk \<Rightarrow> ResearchHost \<times> 'w world \<Rightarrow> (pyexc + unit) \<times> ResearchHost \<times> 'w world" where
  "host_cleanup sdk hw =
     (case disconnect_clients sdk (mcp_clients (fst hw)) hw of
        (Inl e, h1, w1) \<Rightarrow> (Inl e, h1, w1)
      | (Inr u, h1, w1) \<Rightarrow> (Inr (), h1\<lparr>mcp_clients := []\<rparr>, w1))"

section \<open>The two example servers as an SDK\<close>

text \<open>Two catalogs after \<^verbatim>\<open>agent/server.py\<close> and \<^verbatim>\<open>agent/experiment_server.py\<close>: two
  tools of the first, and of the second one tool and, for a clash of names, a second
  \<^verbatim>\<open>simple_query\<close>; their schemas have the shapes that \<^verbatim>\<open>get_tools\<close> tells apart.
  An SDK serves them: its state is the list of the scripts spawned so far, the streams
  of the \<open>n\<close>th subprocess are \<open>2n\<close> and \<open>2n+1\<close>, and any script but the experiment
  server runs the default server.\<close>

definition server_tools :: "sdk_tool list" where
  "server_tools =
     [\<lparr>tool_name = ''simple_query'',
       tool_description = Some ''Simple query tool that only requires a query string'',
       tool_inputSchema = PDict [(''type'', PStr ''object''), (''required'', PList [PStr ''query''])]\<rparr>,
      \<lparr>tool_name = ''get_status'',
       tool_description = None,
       tool_inputSchema = PNone\<rparr>]"

definition experiment_tools :: "sdk_tool list" where
  "experiment_tools =
     [\<lparr>tool_name = ''tool_xy87'',
       tool_description = Some ''This is a general-purpose data processing tool'',
       tool_inputSchema = PModel True
         (Inr (PDict [(''type'', PStr ''object''), (''required'', PList [PStr ''data_input''])]))\<rparr>,
      \<lparr>tool_name = ''simple_query'',
       tool_description = Some '''',
       tool_inputSchema = PStr ''object''\<rparr>]"

definition catalog :: "string \<Rightarrow> sdk_tool list" where
  "catalog script =
     (if script = ''agent/experiment_server.py'' then experiment_tools else server_tools)"

definition example_sdk :: "string list sdk" where
  "example_sdk =
     \<lparr>stdio_aenter = (\<lambda>st s. case st of stdio_client script \<Rightarrow>
         (Inr (2 * length s, 2 * length s + 1), s @ [script])),
      stdio_aexit = (\<lambda>st s. (Inr (), s)),
      session_aenter = (\<lambda>sc s. (Inr sc, s)),
      session_aexit = (\<lambda>sc s. (Inr (), s)),
      session_initialize = (\<lambda>sc s. (Inr (), s)),
      session_list_tools = (\<lambda>sc s. case sc of ClientSession rd wr \<Rightarrow>
         (if rd div 2 < length s then Inr (catalog (s ! (rd div 2)))
          else Inl (PyExc OtherException ''Connection closed''), s)),
      session_call_tool = (\<lambda>sc name a s.
         (Inr \<lparr>result_content = [TextItem name], result_isError = False\<rparr>, s))\<rparr>"

definition empty_world :: "string list world" where
  "empty_world = \<lparr>sdk_state = [], trace = [], heap = []\<rparr>"

text \<open>A client of the default server after a successful \<^verbatim>\<open>connect\<close> on the empty
  world, and the world then.\<close>

definition connected_client :: MCPClient where
  "connected_client =
     \<lparr>server_script = ''agent/server.py'', session = Some (ClientSession 0 1),
      stdio_context = Some (stdio_client ''agent/server.py''),
      session_context = Some (ClientSession 0 1), tools_cache = None, initialized = True\<rparr>"

definition connected_world :: "string list world" where
  "connected_world =
     \<lparr>sdk_state = [''agent/server.py''],
      trace = [StdioEnter (stdio_client ''agent/server.py''), SessionEnter (ClientSession 0 1),
               Initialize (ClientSession 0 1)],
      heap = []\<rparr>"

text \<open>The example SDK with faults injected: a \<open>KeyboardInterrupt\<close> in the release of
  a session; a cancellation and a refusal of the handshake; release steps that fault
  with a \<open>RuntimeError\<close> and a cancellation; a catalog fetch and a tool call that fail,
  and that are cancelled.\<close>

definition interrupting_sdk :: "string list sdk" where
  "interrupting_sdk =
     example_sdk\<lparr>session_aexit := (\<lambda>sc s. (Inl (PyExc KeyboardInterrupt []), s))\<rparr>"

definition cancelling_sdk :: "string list sdk" where
  "cancelling_sdk =
     example_sdk\<lparr>session_initialize := (\<lambda>sc s. (Inl (PyExc CancelledError []), s))\<rparr>"

definition refusing_sdk :: "string list sdk" where
  "refusing_sdk =
     example_sdk\<lparr>session_initialize :=
       (\<lambda>sc s. (Inl (PyExc OtherException ''Connection closed''), s))\<rparr>"

definition faulty_release_sdk :: "string list sdk" where
  "faulty_release_sdk =
     example_sdk\<lparr>session_aexit :=
         (\<lambda>sc s. (Inl (PyExc RuntimeError ''Attempted to exit cancel scope in a different task''), s)),
       stdio_aexit := (\<lambda>st s. (Inl (PyExc CancelledError []), s))\<rparr>"

definition failing_fetch_sdk :: "string list sdk" where
  "failing_fetch_sdk =
     example_sdk\<lparr>session_list_tools :=
         (\<lambda>sc s. (Inl (PyExc OtherException ''Connection closed''), s)),
       session_call_tool :=
         (\<lambda>sc name a s. (Inl (PyExc OtherException ''Connection closed''), s))\<rparr>"


text \<open>The client and the world after the first \<^verbatim>\<open>get_tools\<close> of the connected
  client.\<close>

definition fetched_client :: MCPClient where
  "fetched_client = connected_client\<lparr>tools_cache := Some [0, 1]\<rparr>"


text \<open>More fixtures: a catalog whose second tool has a schema object whose
  \<^verbatim>\<open>model_dump\<close> raises, and an SDK that serves it; an SDK that refuses the handshake
  and interrupts the release of the session; a client of the experiment server after a
  successful \<^verbatim>\<open>connect\<close> on the empty world, the world then, and both after the
  first \<^verbatim>\<open>get_tools\<close>.\<close>

definition broken_tools :: "sdk_tool list" where
  "broken_tools =
     [\<lparr>tool_name = ''simple_query'',
       tool_description = Some ''Simple query tool that only requires a query string'',
       tool_inputSchema = PDict [(''type'', PStr ''object''), (''required'', PList [PStr ''query''])]\<rparr>,
      \<lparr>tool_name = ''broken'',
       tool_description = None,
       tool_inputSchema = PModel True (Inl (PyExc OtherException ''validation error''))\<rparr>]"

definition raising_schema_sdk :: "string list sdk" where
  "raising_schema_sdk =
     example_sdk\<lparr>session_list_tools := (\<lambda>sc s. (Inr broken_tools, s))\<rparr>"

definition refusing_interrupting_sdk :: "string list sdk" where
  "refusing_interrupting_sdk =
     refusing_sdk\<lparr>session_aexit := (\<lambda>sc s. (Inl (PyExc KeyboardInterrupt []), s))\<rparr>"

definition lone_experiment_client :: MCPClient where
  "lone_experiment_client =
     \<lparr>server_script = ''agent/experiment_server.py'', session = Some (ClientSession 0 1),
      stdio_context = Some (stdio_client ''agent/experiment_server.py''),
      session_context = Some (ClientSession 0 1), tools_cache = None, initialized = True\<rparr>"

definition lone_experiment_world :: "string list world" where
  "lone_experiment_world =
     \<lparr>sdk_state = [''agent/experiment_server.py''],
      trace = [StdioEnter (stdio_client ''agent/experiment_server.py''),
               SessionEnter (ClientSession 0 1), Initialize (ClientSession 0 1)],
      heap = []\<rparr>"

definition lone_experiment_fetched :: "string list world" where
  "lone_experiment_fetched =
     lone_experiment_world\<lparr>trace := trace lone_experiment_world @ [ListTools (ClientSession 0 1)],
       heap := [[(''name'', PStr ''tool_xy87''),
                 (''description'', PStr ''This is a general-purpose data processing tool''),
                 (''inputSchema'', PDict [(''type'', PStr ''object''), (''required'', PList [PStr ''data_input''])])],
                [(''name'', PStr ''simple_query''), (''description'', PStr []),
                 (''inputSchema'', PDict [])]]\<rparr>"

section \<open>The registry and the store\<close>

text \<open>The addresses in the cache of a client.\<close>

definition cache_list :: "MCPClient \<Rightarrow> nat list" where
  "cache_list c = (case tools_cache c of None \<Rightarrow> [] | Some l \<Rightarrow> l)"

text \<open>The addresses in the cache of the client registered for a script.\<close>

definition cache_of :: "ResearchHost \<Rightarrow> string \<Rightarrow> nat list" where
  "cache_of h script =
     (case map_of (mcp_clients h) script of None \<Rightarrow> [] | Some c \<Rightarrow> cache_list c)"

text \<open>
  What holds of the registry and the store whenever the host is between two of its
  operations: the keys of the registry are distinct; the addresses in the cache of a
  registered client are allocated, and a dict there that has a \<^verbatim>\<open>_server\<close> key has
  the script of the client under it; the caches of two clients share no address (every
  dict is allocated by the one \<^verbatim>\<open>get_tools\<close> that caches it).
\<close>

definition registry_ok :: "ResearchHost \<times> 'w world \<Rightarrow> bool" where
  "registry_ok hw =
     (case hw of (h, w) \<Rightarrow>
        distinct (map fst (mcp_clients h)) \<and>
        (\<forall>s c. map_of (mcp_clients h) s = Some c \<longrightarrow>
           (\<forall>a \<in> set (cache_list c). a < length (heap w) \<and>
              (\<forall>v. dict_get (heap w ! a) ''_server'' = Some v \<longrightarrow> v = PStr s))) \<and>
        (\<forall>s c s' c'. map_of (mcp_clients h) s = Some c \<and> map_of (mcp_clients h) s' = Some c'
           \<and> s \<noteq> s' \<longrightarrow> set (cache_list c) \<inter> set (cache_list c') = {}))"

text \<open>How the store of a later world relates to that of an earlier one: the dicts of
  the earlier one are still there, with the same value under every key but
  \<^verbatim>\<open>_server\<close>, and a dict that had a \<^verbatim>\<open>_server\<close> key still has one.\<close>

definition heap_extends :: "'w world \<Rightarrow> 'w world \<Rightarrow> bool" where
  "heap_extends w w1 =
     (length (heap w) \<le> length (heap w1) \<and>
      (\<forall>a < length (heap w).
         (\<forall>k. k \<noteq> ''_server'' \<longrightarrow> dict_get (heap w1 ! a) k = dict_get (heap w ! a) k) \<and>
         (dict_get (heap w ! a) ''_server'' \<noteq> None \<longrightarrow>
            dict_get (heap w1 ! a) ''_server'' \<noteq> None)))"

text \<open>The host and the world after the catalogs of the two example servers were merged
  on the empty world, and an SDK where the release of the first server's session
  faults.\<close>

definition experiment_client :: MCPClient where
  "experiment_client =
     \<lparr>server_script = ''agent/experiment_server.py'', session = Some (ClientSession 2 3),
      stdio_context = Some (stdio_client ''agent/experiment_server.py''),
      session_context = Some (ClientSession 2 3), tools_cache = Some [2, 3],
      initialized = True\<rparr>"

definition merged_host :: ResearchHost where
  "merged_host =
     \<lparr>mcp_clients = [(''agent/server.py'', fetched_client),
                      (''agent/experiment_server.py'', experiment_client)]\<rparr>"

definition merged_world :: "string list world" where
  "merged_world =
     \<lparr>sdk_state = [''agent/server.py'', ''agent/experiment_server.py''],
      trace = [StdioEnter (stdio_client ''agent/server.py''), SessionEnter (ClientSession 0 1),
               Initialize (ClientSession 0 1),
               StdioEnter (stdio_client ''agent/experiment_server.py''),
               SessionEnter (ClientSession 2 3), Initialize (ClientSession 2 3),
               ListTools (ClientSession 0 1), ListTools (ClientSession 2 3)],
      heap = [[(''name'', PStr ''simple_query''),
               (''description'', PStr ''Simple query tool that only requires a query string''),
               (''inputSchema'', PDict [(''type'', PStr ''object''), (''required'', PList [PStr ''query''])]),
               (''_server'', PStr ''agent/server.py'')],
              [(''name'', PStr ''get_status''), (''description'', PStr []),
               (''inputSchema'', PDict []),
               (''_server'', PStr ''agent/server.py'')],
              [(''name'', PStr ''tool_xy87''),
               (''description'', PStr ''This is a general-purpose data processing tool''),
               (''inputSchema'', PDict [(''type'', PStr ''object''), (''required'', PList [PStr ''data_input''])]),
               (''_server'', PStr ''agent/experiment_server.py'')],
              [(''name'', PStr ''simple_query''), (''description'', PStr []),
               (''inputSchema'', PDict []),
               (''_server'', PStr ''agent/experiment_server.py'')]]\<rparr>"

definition one_faulty_sdk :: "string list sdk" where
  "one_faulty_sdk =
     example_sdk\<lparr>session_aexit :=
       (\<lambda>sc s. if sc = ClientSession 0 1
                then (Inl (PyExc RuntimeError ''Attempted to exit cancel scope in a different task''), s)
                else (Inr (), s))\<rparr>"

section \<open>Teardown\<close>

lemma session_fault_caughtD:
  "release_faults_caught sdk \<Longrightarrow> session_aexit sdk sc s = (Inl e, s') \<Longrightarrow> cleanup_catches e"
  by (metis fst_conv release_faults_caught_def)

lemma stdio_fault_caughtD:
  "release_faults_caught sdk \<Longrightarrow> stdio_aexit sdk st s = (Inl e, s') \<Longrightarrow> cleanup_catches e"
  by (metis fst_conv release_faults_caught_def)

lemma cleanup_session_caught:
  assumes "release_faults_caught sdk"
  shows "\<exists>w'. cleanup_session sdk (c, w) =
           (Inr (), c\<lparr>session_context := None,
                      session := (if session_context c = None then session c else None)\<rparr>, w')
         \<and> trace w' = trace w @ (case session_context c of None \<Rightarrow> [] | Some sc \<Rightarrow> [SessionExit sc])
         \<and> heap w' = heap w"
  using assms
  by (auto simp: cleanup_session_def await_def Let_def split: option.splits prod.splits sum.splits
           dest: session_fault_caughtD)

lemma cleanup_stdio_caught:
  assumes "release_faults_caught sdk"
  shows "\<exists>w'. cleanup_stdio sdk (c, w) = (Inr (), c\<lparr>stdio_context := None\<rparr>, w')
         \<and> trace w' = trace w @ (case stdio_context c of None \<Rightarrow> [] | Some st \<Rightarrow> [StdioExit st])
         \<and> heap w' = heap w"
  using assms
  by (auto simp: cleanup_stdio_def await_def Let_def split: option.splits prod.splits sum.splits
           dest: stdio_fault_caughtD)

lemma cleanup_caught:
  assumes "release_faults_caught sdk"
  shows "\<exists>w'. cleanup sdk (c, w) =
           (Inr (), c\<lparr>session_context := None,
                      session := (if session_context c = None then session c else None),
                      stdio_context := None, initialized := False, tools_cache := None\<rparr>, w')
         \<and> trace w' = trace w @ release_calls c \<and> heap w' = heap w"
proof -
  let ?c1 = "c\<lparr>session_context := None,
               session := (if session_context c = None then session c else None)\<rparr>"
  obtain w1 where s1: "cleanup_session sdk (c, w) = (Inr (), ?c1, w1)"
    and t1: "trace w1 = trace w @ (case session_context c of None \<Rightarrow> [] | Some sc \<Rightarrow> [SessionExit sc])"
    and h1: "heap w1 = heap w"
    using cleanup_session_caught[OF assms] by blast
  obtain w2 where s2: "cleanup_stdio sdk (?c1, w1) = (Inr (), ?c1\<lparr>stdio_context := None\<rparr>, w2)"
    and t2: "trace w2 = trace w1 @ (case stdio_context ?c1 of None \<Rightarrow> [] | Some st \<Rightarrow> [StdioExit st])"
    and h2: "heap w2 = heap w1"
    using cleanup_stdio_caught[OF assms] by blast
  show ?thesis
    using s1 s2 t1 t2 h1 h2 by (simp add: cleanup_def release_calls_def)
qed

lemma cleanup_nothing_open:
  "session_context c = None \<Longrightarrow> stdio_context c = None \<Longrightarrow>
   cleanup sdk (c, w) = (Inr (), c\<lparr>initialized := False, tools_cache := None\<rparr>, w)"
  by (simp add: cleanup_def cleanup_session_def cleanup_stdio_def)

lemma cleanup_init: "cleanup sdk (MCPClient_init s, w) = (Inr (), MCPClient_init s, w)"
  by (simp add: cleanup_nothing_open MCPClient_init_def)

lemma release_faults_caught_example: "release_faults_caught example_sdk"
  by (simp add: release_faults_caught_def example_sdk_def cleanup_catches_def)

lemma release_faults_caught_faulty: "release_faults_caught faulty_release_sdk"
  by (simp add: release_faults_caught_def faulty_release_sdk_def example_sdk_def cleanup_catches_def)

text \<open>
  Claim C1, as amended. When the release steps raise nothing but what the handler of
  \<^verbatim>\<open>_cleanup\<close> catches (\<open>CancelledError\<close>, \<open>GeneratorExit\<close>, \<open>RuntimeError\<close>, any
  \<open>Exception\<close>), teardown returns without raising from every client state; the calls it
  makes are the release of the session context and then the release of the stdio
  context, each for a context that is open, whatever the first release did; afterwards
  both contexts are absent, the flag is false, the cache is empty, and a second teardown
  changes nothing. When neither context is open, teardown makes no call and raises
  nothing under any SDK: it only resets the flag and the cache.
\<close>

theorem cleanup_releases_session_then_stdio:
  "(release_faults_caught sdk \<longrightarrow>
      (\<exists>c' w'. cleanup sdk (c, w) = (Inr (), c', w')
         \<and> trace w' = trace w @ release_calls c
         \<and> session_context c' = None \<and> stdio_context c' = None
         \<and> \<not> initialized c' \<and> tools_cache c' = None
         \<and> cleanup sdk (c', w') = (Inr (), c', w')))
   \<and> (session_context c = None \<and> stdio_context c = None \<longrightarrow>
        cleanup sdk (c, w) = (Inr (), c\<lparr>initialized := False, tools_cache := None\<rparr>, w))"
proof (intro conjI impI)
  assume a: "release_faults_caught sdk"
  let ?c' = "c\<lparr>session_context := None,
               session := (if session_context c = None then session c else None),
               stdio_context := None, initialized := False, tools_cache := None\<rparr>"
  obtain w' where r: "cleanup sdk (c, w) = (Inr (), ?c', w')"
    and t: "trace w' = trace w @ release_calls c"
    using cleanup_caught[OF a] by blast
  have "cleanup sdk (?c', w') = (Inr (), ?c', w')"
    by (simp add: cleanup_nothing_open)
  with r t show "\<exists>c' w'. cleanup sdk (c, w) = (Inr (), c', w')
         \<and> trace w' = trace w @ release_calls c
         \<and> session_context c' = None \<and> stdio_context c' = None
         \<and> \<not> initialized c' \<and> tools_cache c' = None
         \<and> cleanup sdk (c', w') = (Inr (), c', w')"
    by (intro exI[of _ ?c'] exI[of _ w']) simp
next
  assume "session_context c = None \<and> stdio_context c = None"
  then show "cleanup sdk (c, w) = (Inr (), c\<lparr>initialized := False, tools_cache := None\<rparr>, w)"
    by (simp add: cleanup_nothing_open)
qed

text \<open>The theorem at a client whose session release raises a \<open>RuntimeError\<close> and whose
  stdio release is cancelled, and at a client that never connected.\<close>

theorem cleanup_releases_session_then_stdio_witness:
  "release_faults_caught faulty_release_sdk
   \<and> (\<exists>c' w'. cleanup faulty_release_sdk (connected_client, connected_world) = (Inr (), c', w')
         \<and> trace w' = trace connected_world @
              [SessionExit (ClientSession 0 1), StdioExit (stdio_client ''agent/server.py'')])
   \<and> session_context (MCPClient_init ''agent/server.py'') = None
   \<and> stdio_context (MCPClient_init ''agent/server.py'') = None
   \<and> cleanup faulty_release_sdk (MCPClient_init ''agent/server.py'', empty_world) =
        (Inr (), MCPClient_init ''agent/server.py'', empty_world)"
  using cleanup_releases_session_then_stdio[of faulty_release_sdk connected_client connected_world]
    cleanup_releases_session_then_stdio[of faulty_release_sdk "MCPClient_init ''agent/server.py''" empty_world]
    release_faults_caught_faulty
  by (auto simp: release_calls_def connected_client_def MCPClient_init_def)

text \<open>Claim C1 as stated fails: a \<open>KeyboardInterrupt\<close> raised by the session release
  leaves \<^verbatim>\<open>_cleanup\<close>, and the stdio release is not attempted.\<close>

theorem cleanup_interrupt_counterexample:
  "cleanup interrupting_sdk (connected_client, connected_world) =
     (Inl (PyExc KeyboardInterrupt []),
      connected_client\<lparr>session_context := None, session := None\<rparr>,
      connected_world\<lparr>trace := trace connected_world @ [SessionExit (ClientSession 0 1)]\<rparr>)"
  by (simp add: cleanup_def cleanup_session_def cleanup_stdio_def await_def Let_def
      interrupting_sdk_def example_sdk_def connected_client_def connected_world_def
      cleanup_catches_def)

section \<open>Connecting\<close>

lemma connect_guard: "session c \<noteq> None \<Longrightarrow> connect sdk (c, w) = (Inr (), c, w)"
  by (simp add: connect_def)

lemma connect_body_Inr:
  "connect_body sdk (c, w) = (Inr u, c1, w1) \<Longrightarrow> session c1 \<noteq> None \<and> initialized c1"
  by (auto simp: connect_body_def Let_def split: prod.splits sum.splits)

lemma connect_body_Inl:
  assumes "connect_body sdk (c, w) = (Inl e, c1, w1)" and "session c = None"
  shows "server_script c1 = server_script c
       \<and> stdio_context c1 = Some (stdio_client (server_script c))
       \<and> (session_context c1 = None \<longrightarrow> session c1 = None)"
  using assms by (auto simp: connect_body_def Let_def split: prod.splits sum.splits)

lemma connect_Inr:
  assumes "connect sdk (c, w) = (Inr u, c1, w1)"
  shows "session c1 \<noteq> None"
proof (cases "session c = None")
  case False
  with assms show ?thesis by (simp add: connect_def)
next
  case True
  with assms obtain u' where "connect_body sdk (c, w) = (Inr u', c1, w1)"
    by (auto simp: connect_def split: prod.splits sum.splits if_splits)
  then show ?thesis using connect_body_Inr by blast
qed

lemma connect_example:
  "connect example_sdk (MCPClient_init ''agent/server.py'', empty_world) =
     (Inr (), connected_client, connected_world)"
  by (simp add: connect_def connect_body_def MCPClient_init_def empty_world_def example_sdk_def
      await_def connected_client_def connected_world_def Let_def)

text \<open>
  Claim C3. A client that holds a session is left as it is by \<^verbatim>\<open>connect\<close>, which
  returns at once: the client and the world (hence the log of SDK calls: no spawn, no
  handshake) are unchanged. So after a \<^verbatim>\<open>connect\<close> that returned, a second
  \<^verbatim>\<open>connect\<close> returns too and changes nothing.
\<close>

theorem connect_twice_is_connect_once:
  "(session c \<noteq> None \<longrightarrow> connect sdk (c, w) = (Inr (), c, w))
   \<and> (connect sdk (c, w) = (Inr u, c1, w1) \<longrightarrow> connect sdk (c1, w1) = (Inr (), c1, w1))"
  using connect_guard connect_Inr by blast

text \<open>The theorem at a first and a second \<^verbatim>\<open>connect\<close> to the default server.\<close>

theorem connect_twice_is_connect_once_witness:
  "session connected_client \<noteq> None
   \<and> connect example_sdk (MCPClient_init ''agent/server.py'', empty_world) =
        (Inr (), connected_client, connected_world)
   \<and> connect example_sdk (connected_client, connected_world) =
        (Inr (), connected_client, connected_world)"
  using connect_twice_is_connect_once[of "MCPClient_init ''agent/server.py''" example_sdk
      empty_world "()" connected_client connected_world] connect_example
  by (simp add: connected_client_def)

lemma isinstance_Exception_caught: "isinstance e Exception \<Longrightarrow> cleanup_catches e"
  by (simp add: cleanup_catches_def)

lemma cleanup_session_result:
  assumes "cleanup_session sdk (c, w) = (r, c1, w1)"
  shows "c1 = c\<lparr>session_context := None,
                 session := (if session_context c = None then session c else None)\<rparr>
       \<and> heap w1 = heap w
       \<and> trace w1 = trace w @ (case session_context c of None \<Rightarrow> [] | Some sc \<Rightarrow> [SessionExit sc])
       \<and> (\<forall>e. r = Inl e \<longrightarrow> \<not> cleanup_catches e)"
proof (cases "session_context c")
  case None
  with assms show ?thesis by (auto simp: cleanup_session_def)
next
  case (Some sc)
  obtain x s' where p: "session_aexit sdk sc (sdk_state w) = (x, s')"
    by (cases "session_aexit sdk sc (sdk_state w)") auto
  show ?thesis
  proof (cases x)
    case (Inr u)
    with Some p assms show ?thesis
      by (auto simp: cleanup_session_def await_def Let_def)
  next
    case (Inl e)
    with Some p assms show ?thesis
      by (cases "cleanup_catches e") (auto simp: cleanup_session_def await_def Let_def)
  qed
qed

lemma cleanup_stdio_result:
  assumes "cleanup_stdio sdk (c, w) = (r, c1, w1)"
  shows "c1 = c\<lparr>stdio_context := None\<rparr> \<and> heap w1 = heap w
       \<and> trace w1 = trace w @ (case stdio_context c of None \<Rightarrow> [] | Some st \<Rightarrow> [StdioExit st])
       \<and> (\<forall>e. r = Inl e \<longrightarrow> \<not> cleanup_catches e)"
proof (cases "stdio_context c")
  case None
  with assms show ?thesis by (auto simp: cleanup_stdio_def)
next
  case (Some st)
  obtain x s' where p: "stdio_aexit sdk st (sdk_state w) = (x, s')"
    by (cases "stdio_aexit sdk st (sdk_state w)") auto
  show ?thesis
  proof (cases x)
    case (Inr u)
    with Some p assms show ?thesis
      by (auto simp: cleanup_stdio_def await_def Let_def)
  next
    case (Inl e)
    with Some p assms show ?thesis
      by (cases "cleanup_catches e") (auto simp: cleanup_stdio_def await_def Let_def)
  qed
qed

lemma cleanup_Inr_result:
  assumes "cleanup sdk (c, w) = (Inr u, c2, w2)"
  shows "c2 = c\<lparr>session_context := None,
                 session := (if session_context c = None then session c else None),
                 stdio_context := None, initialized := False, tools_cache := None\<rparr>
       \<and> trace w2 = trace w @ release_calls c \<and> heap w2 = heap w"
proof -
  obtain r1 c1 w1 where s1: "cleanup_session sdk (c, w) = (r1, c1, w1)"
    by (cases "cleanup_session sdk (c, w)") auto
  obtain r2 c' w' where s2: "cleanup_stdio sdk (c1, w1) = (r2, c', w')"
    by (cases "cleanup_stdio sdk (c1, w1)") auto
  from assms s1 s2 have e: "r1 = Inr ()" "r2 = Inr ()" "w2 = w'"
    "c2 = c'\<lparr>initialized := False, tools_cache := None\<rparr>"
    by (auto simp: cleanup_def split: sum.splits)
  from cleanup_session_result[OF s1] cleanup_stdio_result[OF s2] e show ?thesis
    by (simp add: release_calls_def)
qed

lemma cleanup_Inl_result:
  assumes "cleanup sdk (c, w) = (Inl e, c2, w2)"
  shows "\<not> cleanup_catches e \<and> heap w2 = heap w
       \<and> (trace w2 = trace w @ release_calls c
            \<or> (\<exists>sc. session_context c = Some sc \<and> trace w2 = trace w @ [SessionExit sc]))"
proof -
  obtain r1 c1 w1 where s1: "cleanup_session sdk (c, w) = (r1, c1, w1)"
    by (cases "cleanup_session sdk (c, w)") auto
  note a = cleanup_session_result[OF s1]
  show ?thesis
  proof (cases r1)
    case (Inl e1)
    with assms s1 have "e = e1" "w2 = w1" by (auto simp: cleanup_def)
    moreover from Inl a obtain sc where "session_context c = Some sc"
      using s1 by (cases "session_context c") (auto simp: cleanup_session_def)
    ultimately show ?thesis using a Inl by auto
  next
    case (Inr u)
    obtain r2 c' w' where s2: "cleanup_stdio sdk (c1, w1) = (r2, c', w')"
      by (cases "cleanup_stdio sdk (c1, w1)") auto
    from assms s1 s2 Inr have "r2 = Inl e" "w2 = w'"
      by (auto simp: cleanup_def split: sum.splits)
    with a cleanup_stdio_result[OF s2] show ?thesis
      by (simp add: release_calls_def)
  qed
qed

text \<open>
  Claim C2, as amended. When the body of \<^verbatim>\<open>connect\<close> raises an instance of
  \<open>Exception\<close> (at the spawn, at the creation of the session or at the handshake), the
  client runs its cleanup on the state that the failure left: \<^verbatim>\<open>connect\<close> ends in the
  client and the world in which that cleanup ends, and the release of the stdio
  context, stored before it is entered, is among its release steps. When the cleanup
  returns, \<^verbatim>\<open>connect\<close> raises \<open>Exception\<close> with the message
  \<^verbatim>\<open>Failed to connect to MCP server: \<close> followed by the text of the cause, every open
  context was released, and the client is equal to a newly constructed one, so that
  \<^verbatim>\<open>connect\<close> can be tried again; the cleanup returns whenever the release steps raise
  nothing but what its handler catches. When the cleanup raises, what it raises is
  outside the classes that its handler catches, and it leaves \<^verbatim>\<open>connect\<close> in place
  of the wrapped error.
\<close>

theorem connect_failure_cleans_up:
  assumes "session c = None"
      and "connect_body sdk (c, w) = (Inl e, c1, w1)"
      and "isinstance e Exception"
  shows "snd (connect sdk (c, w)) = snd (cleanup sdk (c1, w1))
       \<and> StdioExit (stdio_client (server_script c)) \<in> set (release_calls c1)
       \<and> (cleanup sdk (c1, w1) = (Inr u, c2, w2) \<longrightarrow>
            connect sdk (c, w) = (Inl (connect_error e), MCPClient_init (server_script c), w2)
            \<and> trace w2 = trace w1 @ release_calls c1)
       \<and> (cleanup sdk (c1, w1) = (Inl e2, c2, w2) \<longrightarrow>
            connect sdk (c, w) = (Inl e2, c2, w2) \<and> \<not> cleanup_catches e2)
       \<and> (release_faults_caught sdk \<longrightarrow>
            (\<exists>w3. connect sdk (c, w) = (Inl (connect_error e), MCPClient_init (server_script c), w3)
               \<and> trace w3 = trace w1 @ release_calls c1))
       \<and> exc_str (connect_error e) = ''Failed to connect to MCP server: '' @ exc_str e"
proof -
  have b: "server_script c1 = server_script c"
    "stdio_context c1 = Some (stdio_client (server_script c))"
    "session_context c1 = None \<longrightarrow> session c1 = None"
    using connect_body_Inl[OF assms(2) assms(1)] by simp_all
  let ?c2 = "c1\<lparr>session_context := None,
               session := (if session_context c1 = None then session c1 else None),
               stdio_context := None, initialized := False, tools_cache := None\<rparr>"
  have fresh: "?c2 = MCPClient_init (server_script c)"
    using b by (simp add: MCPClient_init_def)
  have run: "snd (connect sdk (c, w)) = snd (cleanup sdk (c1, w1))"
    using assms by (cases "cleanup sdk (c1, w1)") (auto simp: connect_def split: sum.splits)
  have rel: "StdioExit (stdio_client (server_script c)) \<in> set (release_calls c1)"
    using b by (simp add: release_calls_def)
  have ok: "cleanup sdk (c1, w1) = (Inr u, c2, w2) \<longrightarrow>
            connect sdk (c, w) = (Inl (connect_error e), MCPClient_init (server_script c), w2)
            \<and> trace w2 = trace w1 @ release_calls c1"
  proof
    assume cl: "cleanup sdk (c1, w1) = (Inr u, c2, w2)"
    from cleanup_Inr_result[OF cl] fresh have "c2 = MCPClient_init (server_script c)"
      "trace w2 = trace w1 @ release_calls c1" by simp_all
    with cl assms show "connect sdk (c, w) = (Inl (connect_error e), MCPClient_init (server_script c), w2)
            \<and> trace w2 = trace w1 @ release_calls c1"
      by (simp add: connect_def)
  qed
  have bad: "cleanup sdk (c1, w1) = (Inl e2, c2, w2) \<longrightarrow>
            connect sdk (c, w) = (Inl e2, c2, w2) \<and> \<not> cleanup_catches e2"
  proof
    assume cl: "cleanup sdk (c1, w1) = (Inl e2, c2, w2)"
    from cleanup_Inl_result[OF cl] cl assms
    show "connect sdk (c, w) = (Inl e2, c2, w2) \<and> \<not> cleanup_catches e2"
      by (simp add: connect_def)
  qed
  have caught: "release_faults_caught sdk \<longrightarrow>
            (\<exists>w3. connect sdk (c, w) = (Inl (connect_error e), MCPClient_init (server_script c), w3)
               \<and> trace w3 = trace w1 @ release_calls c1)"
  proof
    assume a: "release_faults_caught sdk"
    obtain w3 where r: "cleanup sdk (c1, w1) = (Inr (), ?c2, w3)"
      and t: "trace w3 = trace w1 @ release_calls c1"
      using cleanup_caught[OF a] by blast
    with fresh assms show "\<exists>w3. connect sdk (c, w) =
          (Inl (connect_error e), MCPClient_init (server_script c), w3)
               \<and> trace w3 = trace w1 @ release_calls c1"
      by (simp add: connect_def)
  qed
  have msg: "exc_str (connect_error e) = ''Failed to connect to MCP server: '' @ exc_str e"
    by (simp add: connect_error_def)
  show ?thesis
    using run rel ok bad caught msg by (intro conjI)
qed

lemma connect_body_refused:
  "connect_body refusing_sdk (MCPClient_init ''agent/server.py'', empty_world) =
     (Inl (PyExc OtherException ''Connection closed''),
      connected_client\<lparr>initialized := False\<rparr>, connected_world)"
  by (simp add: connect_body_def MCPClient_init_def empty_world_def refusing_sdk_def
      example_sdk_def await_def connected_client_def connected_world_def Let_def)

lemma connect_body_refused_interrupting:
  "connect_body refusing_interrupting_sdk (MCPClient_init ''agent/server.py'', empty_world) =
     (Inl (PyExc OtherException ''Connection closed''),
      connected_client\<lparr>initialized := False\<rparr>, connected_world)"
  by (simp add: connect_body_def MCPClient_init_def empty_world_def refusing_sdk_def
      refusing_interrupting_sdk_def example_sdk_def await_def connected_client_def
      connected_world_def Let_def)

lemma cleanup_refused:
  "cleanup refusing_sdk (connected_client\<lparr>initialized := False\<rparr>, connected_world) =
     (Inr (), MCPClient_init ''agent/server.py'',
      connected_world\<lparr>trace := trace connected_world @
        [SessionExit (ClientSession 0 1), StdioExit (stdio_client ''agent/server.py'')]\<rparr>)"
  by (simp add: cleanup_def cleanup_session_def cleanup_stdio_def await_def Let_def
      refusing_sdk_def example_sdk_def connected_client_def connected_world_def
      MCPClient_init_def)

lemma cleanup_refused_interrupting:
  "cleanup refusing_interrupting_sdk (connected_client\<lparr>initialized := False\<rparr>, connected_world) =
     (Inl (PyExc KeyboardInterrupt []),
      connected_client\<lparr>initialized := False, session_context := None, session := None\<rparr>,
      connected_world\<lparr>trace := trace connected_world @ [SessionExit (ClientSession 0 1)]\<rparr>)"
  by (simp add: cleanup_def cleanup_session_def cleanup_stdio_def await_def Let_def
      refusing_interrupting_sdk_def refusing_sdk_def example_sdk_def connected_client_def
      connected_world_def cleanup_catches_def)

text \<open>The theorem at a server that refuses the handshake, with release steps that
  return and with a release of the session that is interrupted.\<close>

theorem connect_failure_cleans_up_witness:
  "session (MCPClient_init ''agent/server.py'') = None
   \<and> connect_body refusing_sdk (MCPClient_init ''agent/server.py'', empty_world) =
        (Inl (PyExc OtherException ''Connection closed''),
         connected_client\<lparr>initialized := False\<rparr>, connected_world)
   \<and> isinstance (PyExc OtherException ''Connection closed'') Exception
   \<and> release_faults_caught refusing_sdk
   \<and> connect refusing_sdk (MCPClient_init ''agent/server.py'', empty_world) =
        (Inl (PyExc Exception ''Failed to connect to MCP server: Connection closed''),
         MCPClient_init ''agent/server.py'',
         connected_world\<lparr>trace := trace connected_world @
           [SessionExit (ClientSession 0 1), StdioExit (stdio_client ''agent/server.py'')]\<rparr>)
   \<and> connect_body refusing_interrupting_sdk (MCPClient_init ''agent/server.py'', empty_world) =
        (Inl (PyExc OtherException ''Connection closed''),
         connected_client\<lparr>initialized := False\<rparr>, connected_world)
   \<and> connect refusing_interrupting_sdk (MCPClient_init ''agent/server.py'', empty_world) =
        (Inl (PyExc KeyboardInterrupt []),
         connected_client\<lparr>initialized := False, session_context := None, session := None\<rparr>,
         connected_world\<lparr>trace := trace connected_world @ [SessionExit (ClientSession 0 1)]\<rparr>)
   \<and> \<not> cleanup_catches (PyExc KeyboardInterrupt [])"
proof -
  have a: "session (MCPClient_init ''agent/server.py'') = None"
    by (simp add: MCPClient_init_def)
  have c: "isinstance (PyExc OtherException ''Connection closed'') Exception"
    by simp
  have d: "release_faults_caught refusing_sdk"
    by (simp add: release_faults_caught_def refusing_sdk_def example_sdk_def)
  show ?thesis
    using connect_failure_cleans_up[OF a connect_body_refused c, of "()"
        "MCPClient_init ''agent/server.py''"
        "connected_world\<lparr>trace := trace connected_world @
           [SessionExit (ClientSession 0 1), StdioExit (stdio_client ''agent/server.py'')]\<rparr>"]
      connect_failure_cleans_up[OF a connect_body_refused_interrupting c,
        where ?e2.0 = "PyExc KeyboardInterrupt []"
          and ?c2.0 = "connected_client\<lparr>initialized := False, session_context := None,
                 session := None\<rparr>"
          and ?w2.0 = "connected_world\<lparr>trace := trace connected_world @
                 [SessionExit (ClientSession 0 1)]\<rparr>"]
      a c d connect_body_refused connect_body_refused_interrupting cleanup_refused
      cleanup_refused_interrupting
    by (simp add: connect_error_def MCPClient_init_def cleanup_catches_def)
qed

text \<open>Claim C2 as stated fails. A \<open>CancelledError\<close> raised by the handshake is not an
  \<open>Exception\<close>, so it leaves \<^verbatim>\<open>connect\<close> with no cleanup (no release call is made):
  the client keeps its session and both contexts with the flag false, and a later
  \<^verbatim>\<open>connect\<close> returns at once without a handshake. And when the handshake is refused
  and the release of the session is interrupted, the \<open>KeyboardInterrupt\<close> leaves
  \<^verbatim>\<open>connect\<close> in place of the wrapped error, with the stdio context still held.\<close>

theorem connect_cancelled_counterexample:
  "connect cancelling_sdk (MCPClient_init ''agent/server.py'', empty_world) =
     (Inl (PyExc CancelledError []), connected_client\<lparr>initialized := False\<rparr>, connected_world)
   \<and> connect example_sdk (connected_client\<lparr>initialized := False\<rparr>, connected_world) =
     (Inr (), connected_client\<lparr>initialized := False\<rparr>, connected_world)
   \<and> connect refusing_interrupting_sdk (MCPClient_init ''agent/server.py'', empty_world) =
        (Inl (PyExc KeyboardInterrupt []),
         connected_client\<lparr>initialized := False, session_context := None, session := None\<rparr>,
         connected_world\<lparr>trace := trace connected_world @ [SessionExit (ClientSession 0 1)]\<rparr>)"
  by (simp add: connect_def connect_body_def MCPClient_init_def empty_world_def
      cancelling_sdk_def refusing_interrupting_sdk_def refusing_sdk_def example_sdk_def
      await_def connected_client_def connected_world_def Let_def
      cleanup_def cleanup_session_def cleanup_stdio_def cleanup_catches_def)

section \<open>Reading the catalog and calling a tool\<close>

lemma input_schema_PDict: "input_schema (PDict kvs) = Inr (PDict kvs)"
  by (cases kvs) (simp_all add: input_schema_def)

lemma input_schema_Inl: "input_schema v = Inl e \<Longrightarrow> v = PModel True (Inl e)"
  by (cases v) (auto simp: input_schema_def split: if_splits)

lemma tool_dict_Inr:
  assumes "tool_dict t = Inr d"
  shows "\<exists>sch. input_schema (tool_inputSchema t) = Inr sch
           \<and> d = [(''name'', PStr (tool_name t)),
                   (''description'', PStr (description_or_empty (tool_description t))),
                   (''inputSchema'', sch)]"
  using assms by (cases "input_schema (tool_inputSchema t)") (simp_all add: tool_dict_def)

lemma tool_dict_Inl: "tool_dict t = Inl e \<Longrightarrow> input_schema (tool_inputSchema t) = Inl e"
  by (cases "input_schema (tool_inputSchema t)") (simp_all add: tool_dict_def)

lemma convert_tools_result:
  assumes "convert_tools ts acc w = (r, acc', w')"
  shows "sdk_state w' = sdk_state w \<and> trace w' = trace w
       \<and> length (heap w) \<le> length (heap w')
       \<and> take (length (heap w)) (heap w') = heap w
       \<and> acc' = acc @ [length (heap w) ..< length (heap w')]
       \<and> (r = Inr () \<longrightarrow> length (heap w') = length (heap w) + length ts)
       \<and> (\<forall>i. length (heap w) + i < length (heap w') \<longrightarrow>
              tool_dict (ts ! i) = Inr (heap w' ! (length (heap w) + i)))
       \<and> (\<forall>e. r = Inl e \<longrightarrow> (\<exists>t \<in> set ts. tool_dict t = Inl e))"
  using assms
proof (induction ts arbitrary: acc w)
  case Nil
  then show ?case by auto
next
  case (Cons t ts)
  show ?case
  proof (cases "tool_dict t")
    case (Inl e)
    with Cons.prems show ?thesis by auto
  next
    case (Inr d)
    let ?w1 = "w\<lparr>heap := heap w @ [d]\<rparr>"
    let ?n = "length (heap w)"
    have run: "convert_tools ts (acc @ [?n]) ?w1 = (r, acc', w')"
      using Cons.prems Inr by (simp add: alloc_def)
    from Cons.IH[OF run] have ih:
      "sdk_state w' = sdk_state w" "trace w' = trace w"
      "Suc ?n \<le> length (heap w')"
      "take (Suc ?n) (heap w') = heap w @ [d]"
      "acc' = (acc @ [?n]) @ [Suc ?n ..< length (heap w')]"
      "r = Inr () \<longrightarrow> length (heap w') = Suc ?n + length ts"
      "\<And>i. Suc ?n + i < length (heap w') \<Longrightarrow> tool_dict (ts ! i) = Inr (heap w' ! (Suc ?n + i))"
      "\<forall>e. r = Inl e \<longrightarrow> (\<exists>t \<in> set ts. tool_dict t = Inl e)"
      by simp_all
    have tk: "take ?n (heap w') = heap w"
    proof -
      have "take ?n (heap w') = take ?n (take (Suc ?n) (heap w'))"
        by (simp add: min_def)
      also have "\<dots> = heap w" using ih(4) by simp
      finally show ?thesis .
    qed
    have at: "heap w' ! ?n = d"
    proof -
      have "heap w' ! ?n = take (Suc ?n) (heap w') ! ?n" by simp
      also have "\<dots> = d" using ih(4) by simp
      finally show ?thesis .
    qed
    have up: "[?n ..< length (heap w')] = ?n # [Suc ?n ..< length (heap w')]"
      using ih(3) by (intro upt_conv_Cons) simp
    have dicts: "\<forall>i. ?n + i < length (heap w') \<longrightarrow>
              tool_dict ((t # ts) ! i) = Inr (heap w' ! (?n + i))"
    proof (intro allI impI)
      fix i assume i: "?n + i < length (heap w')"
      show "tool_dict ((t # ts) ! i) = Inr (heap w' ! (?n + i))"
      proof (cases i)
        case 0
        with Inr at show ?thesis by simp
      next
        case (Suc j)
        with i have "Suc ?n + j < length (heap w')" by simp
        from ih(7)[OF this] Suc show ?thesis by simp
      qed
    qed
    have fail: "\<forall>e. r = Inl e \<longrightarrow> (\<exists>t' \<in> set (t # ts). tool_dict t' = Inl e)"
      using ih(8) by auto
    show ?thesis
      using ih(1,2,3,5,6) tk up dicts fail by simp
  qed
qed


lemma get_tools_not_connected:
  "\<not> initialized c \<or> session c = None \<Longrightarrow> get_tools sdk (c, w) = (Inl NotConnectedError, c, w)"
  by (auto simp: get_tools_def split: option.splits)

lemma call_tool_not_connected:
  "\<not> initialized c \<or> session c = None \<Longrightarrow>
   call_tool sdk name a (c, w) = (Inl NotConnectedError, c, w)"
  by (auto simp: call_tool_def split: option.splits)

lemma cleanup_Inr:
  "cleanup sdk (c, w) = (Inr u, c1, w1) \<Longrightarrow> \<not> initialized c1 \<and> tools_cache c1 = None"
  by (auto simp: cleanup_def split: prod.splits sum.splits)

text \<open>
  Claim C5. On a client whose flag is false or whose session is absent, \<^verbatim>\<open>get_tools\<close>
  and \<^verbatim>\<open>call_tool\<close> raise the not-connected error (the builtin \<open>Exception\<close> with the
  message \<^verbatim>\<open>Client is not connected. Call connect() first.\<close>) and leave the client and
  the world, hence the log of SDK calls, as they were. A newly constructed client is
  such a client, and so is a client after a \<^verbatim>\<open>disconnect\<close> that returned. On a newly
  constructed client \<^verbatim>\<open>disconnect\<close> returns without raising and changes nothing.
\<close>

theorem not_connected_operations_fail:
  "(\<not> initialized c \<or> session c = None \<longrightarrow>
      get_tools sdk (c, w) = (Inl NotConnectedError, c, w)
      \<and> call_tool sdk name a (c, w) = (Inl NotConnectedError, c, w))
   \<and> get_tools sdk (MCPClient_init script, w) = (Inl NotConnectedError, MCPClient_init script, w)
   \<and> call_tool sdk name a (MCPClient_init script, w) =
       (Inl NotConnectedError, MCPClient_init script, w)
   \<and> disconnect sdk (MCPClient_init script, w) = (Inr (), MCPClient_init script, w)
   \<and> (disconnect sdk (c, w) = (Inr u, c1, w1) \<longrightarrow>
        get_tools sdk (c1, w2) = (Inl NotConnectedError, c1, w2)
        \<and> call_tool sdk name a (c1, w2) = (Inl NotConnectedError, c1, w2))
   \<and> NotConnectedError = PyExc Exception ''Client is not connected. Call connect() first.''"
proof -
  have i: "\<not> initialized (MCPClient_init script)"
    by (simp add: MCPClient_init_def)
  have d: "disconnect sdk (c, w) = (Inr u, c1, w1) \<longrightarrow>
        get_tools sdk (c1, w2) = (Inl NotConnectedError, c1, w2)
        \<and> call_tool sdk name a (c1, w2) = (Inl NotConnectedError, c1, w2)"
  proof
    assume "disconnect sdk (c, w) = (Inr u, c1, w1)"
    then have "\<not> initialized c1"
      using cleanup_Inr[of sdk c w u c1 w1] by (simp add: disconnect_def)
    then show "get_tools sdk (c1, w2) = (Inl NotConnectedError, c1, w2)
        \<and> call_tool sdk name a (c1, w2) = (Inl NotConnectedError, c1, w2)"
      by (simp add: get_tools_not_connected call_tool_not_connected)
  qed
  have g: "\<not> initialized c \<or> session c = None \<longrightarrow>
      get_tools sdk (c, w) = (Inl NotConnectedError, c, w)
      \<and> call_tool sdk name a (c, w) = (Inl NotConnectedError, c, w)"
    using get_tools_not_connected call_tool_not_connected by blast
  show ?thesis
    using i d g
    by (simp add: get_tools_not_connected call_tool_not_connected disconnect_def cleanup_init
        NotConnectedError_def)
qed

text \<open>The theorem at a client whose flag is false, and at the client of the default
  server before and after its \<^verbatim>\<open>disconnect\<close>.\<close>

theorem not_connected_operations_fail_witness:
  "initialized (connected_client\<lparr>initialized := False\<rparr>) = False
   \<and> get_tools example_sdk (connected_client\<lparr>initialized := False\<rparr>, connected_world) =
       (Inl NotConnectedError, connected_client\<lparr>initialized := False\<rparr>, connected_world)
   \<and> disconnect example_sdk (connected_client, connected_world) =
       (Inr (), MCPClient_init ''agent/server.py'',
        connected_world\<lparr>trace := trace connected_world @
           [SessionExit (ClientSession 0 1), StdioExit (stdio_client ''agent/server.py'')]\<rparr>)
   \<and> get_tools example_sdk (MCPClient_init ''agent/server.py'', connected_world) =
       (Inl NotConnectedError, MCPClient_init ''agent/server.py'', connected_world)
   \<and> call_tool example_sdk ''simple_query'' (PDict []) (MCPClient_init ''agent/server.py'', connected_world) =
       (Inl NotConnectedError, MCPClient_init ''agent/server.py'', connected_world)"
proof -
  have d: "disconnect example_sdk (connected_client, connected_world) =
       (Inr (), MCPClient_init ''agent/server.py'',
        connected_world\<lparr>trace := trace connected_world @
           [SessionExit (ClientSession 0 1), StdioExit (stdio_client ''agent/server.py'')]\<rparr>)"
    by (simp add: disconnect_def cleanup_def cleanup_session_def cleanup_stdio_def await_def
        Let_def example_sdk_def connected_client_def connected_world_def MCPClient_init_def)
  show ?thesis
    using not_connected_operations_fail[of "connected_client\<lparr>initialized := False\<rparr>"
        example_sdk connected_world "''simple_query''" "PDict []" "''agent/server.py''"
        "()" "MCPClient_init ''agent/server.py''" connected_world connected_world]
      not_connected_operations_fail[of connected_client
        example_sdk connected_world "''simple_query''" "PDict []" "''agent/server.py''"
        "()" "MCPClient_init ''agent/server.py''"
        "connected_world\<lparr>trace := trace connected_world @
           [SessionExit (ClientSession 0 1), StdioExit (stdio_client ''agent/server.py'')]\<rparr>"
        connected_world] d
    by simp
qed


lemma fetch_tools_result:
  assumes "fetch_tools sdk s (c, w) = (r, c1, w1)"
  shows "trace w1 = trace w @ [ListTools s] \<and> take (length (heap w)) (heap w1) = heap w
       \<and> ((\<exists>e s'. r = Inl e \<and> c1 = c
              \<and> session_list_tools sdk s (sdk_state w) = (Inl e, s')
              \<and> w1 = w\<lparr>sdk_state := s', trace := trace w @ [ListTools s]\<rparr>)
          \<or> ((\<exists>tools s'. session_list_tools sdk s (sdk_state w) = (Inr tools, s'))
              \<and> c1 = c\<lparr>tools_cache := Some [length (heap w) ..< length (heap w1)]\<rparr>))"
proof (cases "session_list_tools sdk s (sdk_state w)")
  case (Pair x s')
  show ?thesis
  proof (cases x)
    case (Inl e)
    with Pair assms show ?thesis
      by (auto simp: fetch_tools_def await_def)
  next
    case (Inr tools)
    let ?w0 = "w\<lparr>sdk_state := s', trace := trace w @ [ListTools s]\<rparr>"
    show ?thesis
    proof (cases "tools = []")
      case True
      with Pair Inr assms show ?thesis
        by (auto simp: fetch_tools_def await_def)
    next
      case False
      obtain r2 acc2 w2 where cv: "convert_tools tools [] ?w0 = (r2, acc2, w2)"
        by (cases "convert_tools tools [] ?w0") auto
      from convert_tools_result[OF cv] have st: "trace w2 = trace ?w0"
        "take (length (heap ?w0)) (heap w2) = heap ?w0"
        "acc2 = [] @ [length (heap ?w0) ..< length (heap w2)]"
        by simp_all
      from Pair Inr False assms cv have "r = r2" "c1 = c\<lparr>tools_cache := Some acc2\<rparr>" "w1 = w2"
        by (auto simp: fetch_tools_def await_def)
      with Pair Inr st show ?thesis by simp
    qed
  qed
qed

lemma fetch_tools_Inr_dicts:
  assumes "fetch_tools sdk s (c, w) = (Inr u, c1, w1)"
  shows "\<exists>tools s'. session_list_tools sdk s (sdk_state w) = (Inr tools, s')
           \<and> length (heap w1) = length (heap w) + length tools
           \<and> (\<forall>i < length tools. tool_dict (tools ! i) = Inr (heap w1 ! (length (heap w) + i)))"
proof (cases "session_list_tools sdk s (sdk_state w)")
  case (Pair x s')
  show ?thesis
  proof (cases x)
    case (Inl e)
    with Pair assms show ?thesis
      by (auto simp: fetch_tools_def await_def)
  next
    case (Inr tools)
    let ?w0 = "w\<lparr>sdk_state := s', trace := trace w @ [ListTools s]\<rparr>"
    show ?thesis
    proof (cases "tools = []")
      case True
      with Pair Inr assms show ?thesis
        by (auto simp: fetch_tools_def await_def)
    next
      case False
      obtain r2 acc2 w2 where cv: "convert_tools tools [] ?w0 = (r2, acc2, w2)"
        by (cases "convert_tools tools [] ?w0") auto
      from Pair Inr False assms cv have e: "r2 = Inr ()" "w1 = w2"
        by (auto simp: fetch_tools_def await_def)
      from convert_tools_result[OF cv] e have
        "length (heap w1) = length (heap w) + length tools"
        "\<forall>i. length (heap w) + i < length (heap w1) \<longrightarrow>
              tool_dict (tools ! i) = Inr (heap w1 ! (length (heap w) + i))"
        by simp_all
      with Pair Inr show ?thesis by simp
    qed
  qed
qed

lemma get_tools_Inr:
  assumes "get_tools sdk (c, w) = (Inr ts, c1, w1)"
  shows "\<exists>l s. ts = Some l \<and> tools_cache c1 = Some l \<and> session c1 = Some s \<and> session c = Some s
           \<and> initialized c1
           \<and> (tools_cache c \<noteq> None \<longrightarrow> c1 = c \<and> w1 = w)
           \<and> (tools_cache c = None \<longrightarrow> c1 = c\<lparr>tools_cache := Some l\<rparr>
                 \<and> trace w1 = trace w @ [ListTools s]
                 \<and> l = [length (heap w) ..< length (heap w1)]
                 \<and> take (length (heap w)) (heap w1) = heap w)"
proof -
  from assms obtain s where s: "session c = Some s" and i: "initialized c"
    by (auto simp: get_tools_def split: option.splits if_splits)
  show ?thesis
  proof (cases "tools_cache c")
    case (Some l)
    with assms s i have "c1 = c" "w1 = w" "ts = Some l"
      by (auto simp: get_tools_def)
    with s i Some show ?thesis by simp
  next
    case None
    obtain r c' w' where f: "fetch_tools sdk s (c, w) = (r, c', w')"
      by (cases "fetch_tools sdk s (c, w)") auto
    with assms s i None have r: "r = Inr ()" "c1 = c'" "w1 = w'" "ts = tools_cache c'"
      by (auto simp: get_tools_def split: sum.splits if_splits)
    from fetch_tools_result[OF f] r s i None show ?thesis by auto
  qed
qed






lemma get_tools_fetched_dicts:
  assumes "session c = Some s" and "tools_cache c = None"
      and "get_tools sdk (c, w) = (Inr (Some l), c1, w1)"
  shows "\<exists>tools s'. session_list_tools sdk s (sdk_state w) = (Inr tools, s')
           \<and> l = [length (heap w) ..< length (heap w) + length tools]
           \<and> (\<forall>i < length tools. tool_dict (tools ! i) = Inr (heap w1 ! (length (heap w) + i)))"
proof -
  from assms have i: "initialized c"
    by (auto simp: get_tools_def split: if_splits)
  obtain r c' w' where f: "fetch_tools sdk s (c, w) = (r, c', w')"
    by (cases "fetch_tools sdk s (c, w)") auto
  with assms i have r: "r = Inr ()" "c1 = c'" "w1 = w'" "tools_cache c' = Some l"
    by (auto simp: get_tools_def split: sum.splits if_splits)
  from fetch_tools_result[OF f] r have l: "l = [length (heap w) ..< length (heap w1)]"
    by auto
  from fetch_tools_Inr_dicts[of sdk s c w "()" c' w'] f r obtain tools s' where
    t: "session_list_tools sdk s (sdk_state w) = (Inr tools, s')"
    "length (heap w1) = length (heap w) + length tools"
    "\<forall>i < length tools. tool_dict (tools ! i) = Inr (heap w1 ! (length (heap w) + i))"
    by auto
  with l show ?thesis by simp
qed

text \<open>
  Claim C6, as amended. The normalization of a schema raises only what the
  \<^verbatim>\<open>model_dump\<close> of the schema object raises: a true object with \<^verbatim>\<open>model_dump\<close> gives
  what the call returns (its mapping form) and raises what the call raises, and a false
  one gives the empty dict; a dict gives itself; \<open>None\<close>, a boolean, a number, a string
  or a list gives the empty dict. The descriptors that a \<^verbatim>\<open>get_tools\<close> caches, when it
  fetches and returns, are one for each tool that \<^verbatim>\<open>list_tools\<close> returned, in order,
  each with the name of its tool, its description or the empty string, and the
  normalization of its schema under \<^verbatim>\<open>inputSchema\<close>.
\<close>

theorem input_schema_normalizes:
  "input_schema (PModel True (Inr d)) = Inr d
   \<and> input_schema (PModel True (Inl e)) = Inl e
   \<and> input_schema (PModel False r) = Inr (PDict [])
   \<and> input_schema (PDict kvs) = Inr (PDict kvs)
   \<and> input_schema PNone = Inr (PDict [])
   \<and> input_schema (PBool b) = Inr (PDict [])
   \<and> input_schema (PInt i) = Inr (PDict [])
   \<and> input_schema (PStr s) = Inr (PDict [])
   \<and> input_schema (PList xs) = Inr (PDict [])
   \<and> (input_schema v = Inl e \<longrightarrow> v = PModel True (Inl e))
   \<and> (session c = Some sn \<and> tools_cache c = None
        \<and> get_tools sdk (c, w) = (Inr (Some l), c1, w1) \<longrightarrow>
        (\<exists>tools s'. session_list_tools sdk sn (sdk_state w) = (Inr tools, s')
           \<and> length l = length tools
           \<and> (\<forall>j < length tools. \<exists>sch. input_schema (tool_inputSchema (tools ! j)) = Inr sch
                 \<and> heap w1 ! (l ! j) =
                     [(''name'', PStr (tool_name (tools ! j))),
                      (''description'', PStr (description_or_empty (tool_description (tools ! j)))),
                      (''inputSchema'', sch)])))"
proof -
  have fetched: "session c = Some sn \<and> tools_cache c = None
        \<and> get_tools sdk (c, w) = (Inr (Some l), c1, w1) \<longrightarrow>
        (\<exists>tools s'. session_list_tools sdk sn (sdk_state w) = (Inr tools, s')
           \<and> length l = length tools
           \<and> (\<forall>j < length tools. \<exists>sch. input_schema (tool_inputSchema (tools ! j)) = Inr sch
                 \<and> heap w1 ! (l ! j) =
                     [(''name'', PStr (tool_name (tools ! j))),
                      (''description'', PStr (description_or_empty (tool_description (tools ! j)))),
                      (''inputSchema'', sch)]))"
  proof
    assume a: "session c = Some sn \<and> tools_cache c = None
        \<and> get_tools sdk (c, w) = (Inr (Some l), c1, w1)"
    then obtain tools s' where t: "session_list_tools sdk sn (sdk_state w) = (Inr tools, s')"
      "l = [length (heap w) ..< length (heap w) + length tools]"
      "\<forall>i < length tools. tool_dict (tools ! i) = Inr (heap w1 ! (length (heap w) + i))"
      using get_tools_fetched_dicts[of c sn sdk w l c1 w1] by auto
    have "\<forall>j < length tools. \<exists>sch. input_schema (tool_inputSchema (tools ! j)) = Inr sch
                 \<and> heap w1 ! (l ! j) =
                     [(''name'', PStr (tool_name (tools ! j))),
                      (''description'', PStr (description_or_empty (tool_description (tools ! j)))),
                      (''inputSchema'', sch)]"
    proof (intro allI impI)
      fix j assume j: "j < length tools"
      with t(3) have "tool_dict (tools ! j) = Inr (heap w1 ! (length (heap w) + j))" by simp
      from tool_dict_Inr[OF this] j t(2)
      show "\<exists>sch. input_schema (tool_inputSchema (tools ! j)) = Inr sch
                 \<and> heap w1 ! (l ! j) =
                     [(''name'', PStr (tool_name (tools ! j))),
                      (''description'', PStr (description_or_empty (tool_description (tools ! j)))),
                      (''inputSchema'', sch)]"
        by simp
    qed
    with t show "\<exists>tools s'. session_list_tools sdk sn (sdk_state w) = (Inr tools, s')
           \<and> length l = length tools
           \<and> (\<forall>j < length tools. \<exists>sch. input_schema (tool_inputSchema (tools ! j)) = Inr sch
                 \<and> heap w1 ! (l ! j) =
                     [(''name'', PStr (tool_name (tools ! j))),
                      (''description'', PStr (description_or_empty (tool_description (tools ! j)))),
                      (''inputSchema'', sch)])"
      by simp
  qed
  have raises: "input_schema v = Inl e \<longrightarrow> v = PModel True (Inl e)"
    using input_schema_Inl by blast
  have cases: "input_schema (PModel True (Inr d)) = Inr d"
    "input_schema (PModel True (Inl e)) = Inl e"
    "input_schema (PModel False r) = Inr (PDict [])"
    "input_schema PNone = Inr (PDict [])"
    "input_schema (PBool b) = Inr (PDict [])"
    "input_schema (PInt i) = Inr (PDict [])"
    "input_schema (PStr s) = Inr (PDict [])"
    "input_schema (PList xs) = Inr (PDict [])"
    by (simp_all add: input_schema_def)
  show ?thesis
    using cases input_schema_PDict[of kvs] raises fetched by (intro conjI)
qed

lemma get_tools_lone_experiment:
  "get_tools example_sdk (lone_experiment_client, lone_experiment_world) =
     (Inr (Some [0, 1]), lone_experiment_client\<lparr>tools_cache := Some [0, 1]\<rparr>,
      lone_experiment_fetched)"
  by (simp add: get_tools_def fetch_tools_def await_def alloc_def tool_dict_def input_schema_def
      description_or_empty_def example_sdk_def catalog_def experiment_tools_def
      lone_experiment_client_def lone_experiment_world_def lone_experiment_fetched_def)

text \<open>The theorem at a schema object whose \<^verbatim>\<open>model_dump\<close> raises, and at the first
  \<^verbatim>\<open>get_tools\<close> of a client of the experiment server, whose first tool has a Pydantic
  schema and whose second has a string for a schema.\<close>

theorem input_schema_normalizes_witness:
  "input_schema (PModel True (Inl (PyExc OtherException ''validation error''))) =
     Inl (PyExc OtherException ''validation error'')
   \<and> session lone_experiment_client = Some (ClientSession 0 1)
   \<and> tools_cache lone_experiment_client = None
   \<and> get_tools example_sdk (lone_experiment_client, lone_experiment_world) =
     (Inr (Some [0, 1]), lone_experiment_client\<lparr>tools_cache := Some [0, 1]\<rparr>,
      lone_experiment_fetched)
   \<and> session_list_tools example_sdk (ClientSession 0 1) (sdk_state lone_experiment_world) =
     (Inr experiment_tools, sdk_state lone_experiment_world)
   \<and> input_schema (tool_inputSchema (experiment_tools ! 0)) =
     Inr (PDict [(''type'', PStr ''object''), (''required'', PList [PStr ''data_input''])])
   \<and> dict_get (heap lone_experiment_fetched ! 0) ''inputSchema'' =
     Some (PDict [(''type'', PStr ''object''), (''required'', PList [PStr ''data_input''])])
   \<and> input_schema (tool_inputSchema (experiment_tools ! 1)) = Inr (PDict [])
   \<and> dict_get (heap lone_experiment_fetched ! 1) ''inputSchema'' = Some (PDict [])"
  using input_schema_normalizes[where v = "PModel True (Inl (PyExc OtherException ''validation error''))"
      and e = "PyExc OtherException ''validation error''"
      and c = lone_experiment_client and sn = "ClientSession 0 1" and sdk = example_sdk
      and w = lone_experiment_world and l = "[0, 1]"
      and ?c1.0 = "lone_experiment_client\<lparr>tools_cache := Some [0, 1]\<rparr>"
      and ?w1.0 = lone_experiment_fetched]
    get_tools_lone_experiment
  by (simp add: input_schema_def lone_experiment_client_def lone_experiment_world_def
      lone_experiment_fetched_def example_sdk_def catalog_def experiment_tools_def dict_get_def)

text \<open>Claim C6 as stated fails. The normalization raises what the \<^verbatim>\<open>model_dump\<close> of a
  schema object raises, and a schema object that is false is not converted to its
  mapping form. When the second tool of a catalog has a schema whose \<^verbatim>\<open>model_dump\<close>
  raises, \<^verbatim>\<open>get_tools\<close> raises, and the cache is left with the first descriptor.\<close>

theorem input_schema_raises_counterexample:
  "input_schema (PModel True (Inl (PyExc OtherException ''validation error''))) =
     Inl (PyExc OtherException ''validation error'')
   \<and> input_schema (PModel False (Inr (PDict [(''type'', PStr ''object'')]))) = Inr (PDict [])
   \<and> get_tools raising_schema_sdk (connected_client, connected_world) =
     (Inl (PyExc Exception ''Failed to get tools: validation error''),
      connected_client\<lparr>tools_cache := Some [0]\<rparr>,
      connected_world\<lparr>trace := trace connected_world @ [ListTools (ClientSession 0 1)],
        heap := [[(''name'', PStr ''simple_query''),
                  (''description'', PStr ''Simple query tool that only requires a query string''),
                  (''inputSchema'', PDict [(''type'', PStr ''object''), (''required'', PList [PStr ''query''])])]]\<rparr>)"
  by (simp add: get_tools_def fetch_tools_def await_def alloc_def tool_dict_def input_schema_def
      description_or_empty_def get_tools_error_def raising_schema_sdk_def example_sdk_def
      broken_tools_def connected_client_def connected_world_def)






lemma get_tools_failing:
  "get_tools failing_fetch_sdk (connected_client, connected_world) =
     (Inl (PyExc Exception ''Failed to get tools: Connection closed''), connected_client,
      connected_world\<lparr>trace := trace connected_world @ [ListTools (ClientSession 0 1)]\<rparr>)"
  by (simp add: get_tools_def fetch_tools_def await_def get_tools_error_def
      failing_fetch_sdk_def example_sdk_def connected_client_def connected_world_def)

lemma call_tool_failing:
  "call_tool failing_fetch_sdk ''get_status'' PNone (connected_client, connected_world) =
     (Inl (PyExc Exception ''Failed to call tool 'get_status': Connection closed''), connected_client,
      connected_world\<lparr>trace := trace connected_world @
         [CallTool (ClientSession 0 1) ''get_status'' (PDict [])]\<rparr>)"
  by (simp add: call_tool_def await_def call_tool_error_def
      failing_fetch_sdk_def example_sdk_def connected_client_def connected_world_def)




section \<open>Bulk teardown\<close>

lemma disconnect_clients_caught:
  assumes "release_faults_caught sdk"
  shows "\<exists>h' w'. disconnect_clients sdk cs (h, w) = (Inr (), h', w')
           \<and> trace w' = trace w @ concat (map (\<lambda>(s, c). release_calls c) cs)
           \<and> heap w' = heap w"
proof (induction cs arbitrary: h w)
  case Nil
  show ?case by simp
next
  case (Cons p cs)
  obtain s c where p: "p = (s, c)" by (cases p)
  obtain c1 w1 where d: "disconnect sdk (c, w) = (Inr (), c1, w1)"
    and t: "trace w1 = trace w @ release_calls c" and hp: "heap w1 = heap w"
    using cleanup_caught[OF assms, of c w] by (auto simp: disconnect_def)
  let ?h1 = "h\<lparr>mcp_clients := AList.update s c1 (mcp_clients h)\<rparr>"
  obtain h' w' where r: "disconnect_clients sdk cs (?h1, w1) = (Inr (), h', w')"
    and t': "trace w' = trace w1 @ concat (map (\<lambda>(s, c). release_calls c) cs)"
    and hp': "heap w' = heap w1"
    using Cons.IH[of ?h1 w1] by blast
  show ?case
    using p d t hp r t' hp' by simp
qed

lemma disconnect_clients_result:
  assumes "disconnect_clients sdk cs (h, w) = (r, h', w')"
  shows "(r = Inr () \<longrightarrow> trace w' = trace w @ concat (map (\<lambda>(s, c). release_calls c) cs))
       \<and> (\<forall>e. r = Inl e \<longrightarrow> \<not> cleanup_catches e)"
  using assms
proof (induction cs arbitrary: h w)
  case Nil
  then show ?case by auto
next
  case (Cons p cs)
  obtain s c where p: "p = (s, c)" by (cases p)
  obtain y c1 w1 where d: "cleanup sdk (c, w) = (y, c1, w1)"
    by (cases "cleanup sdk (c, w)") auto
  let ?h1 = "h\<lparr>mcp_clients := AList.update s c1 (mcp_clients h)\<rparr>"
  show ?case
  proof (cases y)
    case (Inr u)
    with Cons.prems p d have run: "disconnect_clients sdk cs (?h1, w1) = (r, h', w')"
      by (simp add: disconnect_def)
    from cleanup_Inr_result[of sdk c w u c1 w1] d Inr
    have "trace w1 = trace w @ release_calls c" by simp
    with Cons.IH[OF run] p show ?thesis by simp
  next
    case (Inl e)
    from cleanup_Inl_result[of sdk c w e c1 w1] d Inl have nc: "\<not> cleanup_catches e" by simp
    then have "\<not> isinstance e Exception" using isinstance_Exception_caught by blast
    with Cons.prems p d Inl have "r = Inl e" by (simp add: disconnect_def)
    with nc show ?thesis by simp
  qed
qed

text \<open>
  Claim C8, as amended. When the release steps raise nothing but what the handler of
  \<^verbatim>\<open>MCPClient._cleanup\<close> catches, \<^verbatim>\<open>ResearchHost.cleanup\<close> returns without raising
  from every registry, the calls it makes are the release calls of every registered
  client, one client after the other in the order of the registry (a release that
  faults does not stop the releases that follow), and the registry is empty
  afterwards. Under any SDK, whenever it returns it has made those calls and left the
  registry empty, and what it raises is an exception that a release step raised and
  that is outside the classes that handler catches.
\<close>

theorem host_cleanup_disconnects_every_client:
  "(release_faults_caught sdk \<longrightarrow>
      (\<exists>h' w'. host_cleanup sdk (h, w) = (Inr (), h', w') \<and> mcp_clients h' = []
         \<and> trace w' = trace w @ concat (map (\<lambda>(s, c). release_calls c) (mcp_clients h))))
   \<and> (host_cleanup sdk (h, w) = (Inr u, h1, w1) \<longrightarrow>
        mcp_clients h1 = []
        \<and> trace w1 = trace w @ concat (map (\<lambda>(s, c). release_calls c) (mcp_clients h)))
   \<and> (host_cleanup sdk (h, w) = (Inl e, h1, w1) \<longrightarrow> \<not> cleanup_catches e)"
proof (intro conjI impI)
  assume a: "release_faults_caught sdk"
  obtain h' w' where r: "disconnect_clients sdk (mcp_clients h) (h, w) = (Inr (), h', w')"
    and t: "trace w' = trace w @ concat (map (\<lambda>(s, c). release_calls c) (mcp_clients h))"
    using disconnect_clients_caught[OF a] by blast
  then show "\<exists>h' w'. host_cleanup sdk (h, w) = (Inr (), h', w') \<and> mcp_clients h' = []
         \<and> trace w' = trace w @ concat (map (\<lambda>(s, c). release_calls c) (mcp_clients h))"
    by (simp add: host_cleanup_def)
next
  assume a: "host_cleanup sdk (h, w) = (Inr u, h1, w1)"
  obtain r h' w' where d: "disconnect_clients sdk (mcp_clients h) (h, w) = (r, h', w')"
    by (cases "disconnect_clients sdk (mcp_clients h) (h, w)") auto
  with a have e: "r = Inr ()" "h1 = h'\<lparr>mcp_clients := []\<rparr>" "w1 = w'"
    by (auto simp: host_cleanup_def split: sum.splits)
  from disconnect_clients_result[OF d] e
  show "mcp_clients h1 = []" and
    "trace w1 = trace w @ concat (map (\<lambda>(s, c). release_calls c) (mcp_clients h))"
    by simp_all
next
  assume a: "host_cleanup sdk (h, w) = (Inl e, h1, w1)"
  obtain r h' w' where d: "disconnect_clients sdk (mcp_clients h) (h, w) = (r, h', w')"
    by (cases "disconnect_clients sdk (mcp_clients h) (h, w)") auto
  with a have "r = Inl e"
    by (auto simp: host_cleanup_def split: sum.splits)
  with disconnect_clients_result[OF d] show "\<not> cleanup_catches e" by simp
qed

lemma release_faults_caught_one_faulty: "release_faults_caught one_faulty_sdk"
  by (simp add: release_faults_caught_def one_faulty_sdk_def example_sdk_def cleanup_catches_def)

lemma host_cleanup_interrupted:
  "host_cleanup interrupting_sdk (merged_host, merged_world) =
     (Inl (PyExc KeyboardInterrupt []),
      \<lparr>mcp_clients = [(''agent/server.py'', fetched_client\<lparr>session_context := None, session := None\<rparr>),
                       (''agent/experiment_server.py'', experiment_client)]\<rparr>,
      merged_world\<lparr>trace := trace merged_world @ [SessionExit (ClientSession 0 1)]\<rparr>)"
  by (simp add: host_cleanup_def disconnect_def cleanup_def cleanup_session_def cleanup_stdio_def
      await_def Let_def cleanup_catches_def interrupting_sdk_def example_sdk_def
      merged_host_def merged_world_def fetched_client_def connected_client_def experiment_client_def)

text \<open>The theorem at the two example servers, where the release of the session of the
  first faults: the second client is released all the same; and where that release is
  interrupted.\<close>

theorem host_cleanup_disconnects_every_client_witness:
  "release_faults_caught one_faulty_sdk
   \<and> fst (session_aexit one_faulty_sdk (ClientSession 0 1) (sdk_state merged_world)) =
       Inl (PyExc RuntimeError ''Attempted to exit cancel scope in a different task'')
   \<and> (\<exists>h' w'. host_cleanup one_faulty_sdk (merged_host, merged_world) = (Inr (), h', w')
         \<and> mcp_clients h' = []
         \<and> trace w' = trace merged_world @
             [SessionExit (ClientSession 0 1), StdioExit (stdio_client ''agent/server.py''),
              SessionExit (ClientSession 2 3), StdioExit (stdio_client ''agent/experiment_server.py'')])
   \<and> fst (host_cleanup interrupting_sdk (merged_host, merged_world)) =
       Inl (PyExc KeyboardInterrupt [])
   \<and> \<not> cleanup_catches (PyExc KeyboardInterrupt [])"
proof -
  note t = host_cleanup_disconnects_every_client[of one_faulty_sdk merged_host merged_world]
  have r: "\<exists>h' w'. host_cleanup one_faulty_sdk (merged_host, merged_world) = (Inr (), h', w')
         \<and> mcp_clients h' = []
         \<and> trace w' = trace merged_world @
             [SessionExit (ClientSession 0 1), StdioExit (stdio_client ''agent/server.py''),
              SessionExit (ClientSession 2 3), StdioExit (stdio_client ''agent/experiment_server.py'')]"
    using t[THEN conjunct1, rule_format, OF release_faults_caught_one_faulty]
    by (simp add: release_calls_def merged_host_def fetched_client_def connected_client_def
        experiment_client_def)
  have f: "fst (session_aexit one_faulty_sdk (ClientSession 0 1) (sdk_state merged_world)) =
       Inl (PyExc RuntimeError ''Attempted to exit cancel scope in a different task'')"
    by (simp add: one_faulty_sdk_def example_sdk_def)
  have n: "\<not> cleanup_catches (PyExc KeyboardInterrupt [])"
    using host_cleanup_disconnects_every_client[of interrupting_sdk merged_host merged_world,
        THEN conjunct2, THEN conjunct2, rule_format, OF host_cleanup_interrupted] .
  have i: "fst (host_cleanup interrupting_sdk (merged_host, merged_world)) =
       Inl (PyExc KeyboardInterrupt [])"
    by (simp add: host_cleanup_interrupted)
  show ?thesis
    using release_faults_caught_one_faulty f r i n by (intro conjI)
qed

text \<open>Claim C8 as stated fails: a \<open>KeyboardInterrupt\<close> raised by the release of the
  first client's session leaves \<^verbatim>\<open>disconnect\<close> and then \<^verbatim>\<open>ResearchHost.cleanup\<close>,
  whose handler is \<^verbatim>\<open>except Exception\<close>; the second client is not disconnected and
  the registry is not cleared.\<close>

theorem host_cleanup_interrupt_counterexample:
  "host_cleanup interrupting_sdk (merged_host, merged_world) =
     (Inl (PyExc KeyboardInterrupt []),
      \<lparr>mcp_clients = [(''agent/server.py'', fetched_client\<lparr>session_context := None, session := None\<rparr>),
                       (''agent/experiment_server.py'', experiment_client)]\<rparr>,
      merged_world\<lparr>trace := trace merged_world @ [SessionExit (ClientSession 0 1)]\<rparr>)"
  by (simp add: host_cleanup_def disconnect_def cleanup_def cleanup_session_def cleanup_stdio_def
      await_def Let_def cleanup_catches_def interrupting_sdk_def example_sdk_def
      merged_host_def merged_world_def fetched_client_def connected_client_def experiment_client_def)

section \<open>Merging the catalogs\<close>

lemma dict_get_set: "dict_get (dict_set d k v) k' = (if k' = k then Some v else dict_get d k')"
  by (simp add: dict_get_def dict_set_def update_conv')

lemma dict_set_same: "dict_get d k = Some v \<Longrightarrow> dict_set d k v = d"
  by (simp add: dict_get_def dict_set_def update_triv)

lemma dict_set_twice: "dict_set (dict_set d k v) k v = dict_set d k v"
  by (simp add: dict_set_def)

lemma tag_tools_frame:
  "sdk_state (tag_tools s as w) = sdk_state w \<and> trace (tag_tools s as w) = trace w
   \<and> length (heap (tag_tools s as w)) = length (heap w)"
  by (induction as arbitrary: w) simp_all

lemma tag_tools_nth:
  "a < length (heap w) \<Longrightarrow>
   heap (tag_tools s as w) ! a =
     (if a \<in> set as then dict_set (heap w ! a) ''_server'' (PStr s) else heap w ! a)"
proof (induction as arbitrary: w)
  case Nil
  show ?case by simp
next
  case (Cons x as)
  let ?w = "w\<lparr>heap := (heap w)[x := dict_set (heap w ! x) ''_server'' (PStr s)]\<rparr>"
  have l: "a < length (heap ?w)" using Cons.prems by simp
  have n: "heap ?w ! a = (if a = x then dict_set (heap w ! a) ''_server'' (PStr s) else heap w ! a)"
    using Cons.prems by (simp add: nth_list_update)
  have "heap (tag_tools s (x # as) w) ! a =
      (if a \<in> set as then dict_set (heap ?w ! a) ''_server'' (PStr s) else heap ?w ! a)"
    using Cons.IH[OF l] by simp
  also have "\<dots> = (if a \<in> set (x # as) then dict_set (heap w ! a) ''_server'' (PStr s)
                   else heap w ! a)"
    unfolding n by (simp add: dict_set_twice)
  finally show ?case .
qed

lemma tag_tools_id:
  assumes "\<forall>a \<in> set as. a < length (heap w) \<and> dict_get (heap w ! a) ''_server'' = Some (PStr s)"
  shows "tag_tools s as w = w"
  using assms
proof (induction as arbitrary: w)
  case Nil
  show ?case by simp
next
  case (Cons x as)
  have "dict_set (heap w ! x) ''_server'' (PStr s) = heap w ! x"
    using Cons.prems by (simp add: dict_set_same)
  then have "w\<lparr>heap := (heap w)[x := dict_set (heap w ! x) ''_server'' (PStr s)]\<rparr> = w"
    by simp
  then show ?case using Cons by simp
qed

lemma tool_dict_untagged: "tool_dict t = Inr d \<Longrightarrow> dict_get d ''_server'' = None"
  using tool_dict_Inr[of t d] by (auto simp: dict_get_def)

lemma convert_tools_fresh:
  assumes "convert_tools ts acc w = (r, acc', w')"
  shows "(\<forall>a < length (heap w). heap w' ! a = heap w ! a)
       \<and> (\<forall>a. length (heap w) \<le> a \<and> a < length (heap w') \<longrightarrow>
              dict_get (heap w' ! a) ''_server'' = None)"
proof -
  from convert_tools_result[OF assms] have
    tk: "take (length (heap w)) (heap w') = heap w" and
    dicts: "\<And>i. length (heap w) + i < length (heap w') \<Longrightarrow>
              tool_dict (ts ! i) = Inr (heap w' ! (length (heap w) + i))"
    by simp_all
  have old: "\<forall>a < length (heap w). heap w' ! a = heap w ! a"
    using tk by (metis nth_take)
  have "\<forall>a. length (heap w) \<le> a \<and> a < length (heap w') \<longrightarrow>
              dict_get (heap w' ! a) ''_server'' = None"
  proof (intro allI impI)
    fix a assume a: "length (heap w) \<le> a \<and> a < length (heap w')"
    then have "length (heap w) + (a - length (heap w)) < length (heap w')" by simp
    from dicts[OF this] a
    have "tool_dict (ts ! (a - length (heap w))) = Inr (heap w' ! a)" by simp
    then show "dict_get (heap w' ! a) ''_server'' = None" by (rule tool_dict_untagged)
  qed
  with old show ?thesis by simp
qed

lemma fetch_tools_fresh:
  assumes "fetch_tools sdk s (c, w) = (r, c1, w1)"
  shows "\<forall>a. length (heap w) \<le> a \<and> a < length (heap w1) \<longrightarrow>
              dict_get (heap w1 ! a) ''_server'' = None"
proof -
  obtain x s' where p: "session_list_tools sdk s (sdk_state w) = (x, s')"
    by (cases "session_list_tools sdk s (sdk_state w)") auto
  let ?w0 = "w\<lparr>sdk_state := s', trace := trace w @ [ListTools s]\<rparr>"
  show ?thesis
  proof (cases x)
    case (Inl e)
    with p assms show ?thesis by (auto simp: fetch_tools_def await_def)
  next
    case (Inr tools)
    show ?thesis
    proof (cases "tools = []")
      case True
      with p assms Inr have "heap w1 = heap w"
        by (auto simp: fetch_tools_def await_def)
      then show ?thesis by auto
    next
      case False
      obtain r2 acc2 w2 where cv: "convert_tools tools [] ?w0 = (r2, acc2, w2)"
        by (cases "convert_tools tools [] ?w0") auto
      with p assms Inr False have "w1 = w2"
        by (auto simp: fetch_tools_def await_def)
      with convert_tools_fresh[OF cv] show ?thesis by simp
    qed
  qed
qed

text \<open>What a \<^verbatim>\<open>get_tools\<close> does to the store and to the cache, whatever it returns: the
  dicts that were there are as they were, and an address in the cache afterwards was in
  the cache before or is that of a dict allocated by this call, which has no
  \<^verbatim>\<open>_server\<close> key.\<close>

lemma get_tools_frame:
  assumes "get_tools sdk (c, w) = (r, c1, w1)"
  shows "length (heap w) \<le> length (heap w1)
       \<and> (\<forall>a < length (heap w). heap w1 ! a = heap w ! a)
       \<and> (\<forall>a \<in> set (cache_list c1). a \<in> set (cache_list c)
             \<or> (length (heap w) \<le> a \<and> a < length (heap w1)
                 \<and> dict_get (heap w1 ! a) ''_server'' = None))"
proof (cases "c1 = c \<and> w1 = w")
  case True
  then show ?thesis by simp
next
  case False
  with assms obtain s where s: "session c = Some s" and i: "initialized c"
      and n: "tools_cache c = None"
    by (auto simp: get_tools_def split: option.splits if_splits)
  obtain r' c' w' where f: "fetch_tools sdk s (c, w) = (r', c', w')"
    by (cases "fetch_tools sdk s (c, w)") auto
  with assms s i n have e: "c1 = c'" "w1 = w'"
    by (auto simp: get_tools_def split: sum.splits if_splits)
  from fetch_tools_result[OF f] e
  have tk: "take (length (heap w)) (heap w1) = heap w"
    and c1: "c1 = c \<or> c1 = c\<lparr>tools_cache := Some [length (heap w) ..< length (heap w1)]\<rparr>"
    by auto
  have "length (take (length (heap w)) (heap w1)) = length (heap w)"
    using tk by simp
  then have le: "length (heap w) \<le> length (heap w1)"
    by simp
  have old: "\<forall>a < length (heap w). heap w1 ! a = heap w ! a"
    using tk by (metis nth_take)
  have fresh: "\<forall>a. length (heap w) \<le> a \<and> a < length (heap w1) \<longrightarrow>
              dict_get (heap w1 ! a) ''_server'' = None"
    using fetch_tools_fresh[OF f] e by simp
  have "\<forall>a \<in> set (cache_list c1). a \<in> set (cache_list c)
             \<or> (length (heap w) \<le> a \<and> a < length (heap w1)
                 \<and> dict_get (heap w1 ! a) ''_server'' = None)"
    using c1
  proof
    assume "c1 = c"
    then show ?thesis by simp
  next
    assume "c1 = c\<lparr>tools_cache := Some [length (heap w) ..< length (heap w1)]\<rparr>"
    then have "set (cache_list c1) = {length (heap w) ..< length (heap w1)}"
      by (simp add: cache_list_def)
    with fresh show ?thesis by auto
  qed
  with le old show ?thesis by simp
qed

lemma get_tools_heap:
  assumes "get_tools sdk (c, w) = (Inr ts, c1, w1)"
  shows "length (heap w) \<le> length (heap w1)
       \<and> (\<forall>a < length (heap w). heap w1 ! a = heap w ! a)
       \<and> (tools_cache c = None \<longrightarrow>
            (\<forall>a \<in> set (cache_list c1). length (heap w) \<le> a \<and> a < length (heap w1)
                \<and> dict_get (heap w1 ! a) ''_server'' = None))"
  using get_tools_frame[OF assms] by (auto simp: cache_list_def)

lemma connect_init_Inr:
  assumes "connect sdk (MCPClient_init s, w) = (Inr u, c1, w1)"
  shows "initialized c1 \<and> session c1 \<noteq> None \<and> tools_cache c1 = None \<and> heap w1 = heap w"
proof -
  have "connect_body sdk (MCPClient_init s, w) = (Inr (), c1, w1)"
    using assms
    by (auto simp: connect_def MCPClient_init_def split: prod.splits sum.splits if_splits)
  then show ?thesis
    by (auto simp: connect_body_def MCPClient_init_def await_def Let_def
        split: prod.splits sum.splits)
qed

lemma heap_extends_refl: "heap_extends w w"
  by (simp add: heap_extends_def)

lemma heap_extends_trans:
  assumes "heap_extends w w1" and "heap_extends w1 w2"
  shows "heap_extends w w2"
  unfolding heap_extends_def
proof (intro conjI allI impI)
  show "length (heap w) \<le> length (heap w2)"
    using assms by (simp add: heap_extends_def)
next
  fix a k assume "a < length (heap w)" "k \<noteq> ''_server''"
  moreover then have "a < length (heap w1)" using assms(1) by (simp add: heap_extends_def)
  ultimately show "dict_get (heap w2 ! a) k = dict_get (heap w ! a) k"
    using assms by (simp add: heap_extends_def)
next
  fix a assume a: "a < length (heap w)" "dict_get (heap w ! a) ''_server'' \<noteq> None"
  then have "a < length (heap w1)" using assms(1) by (simp add: heap_extends_def)
  moreover have "dict_get (heap w1 ! a) ''_server'' \<noteq> None"
    using a assms(1) by (simp add: heap_extends_def)
  ultimately show "dict_get (heap w2 ! a) ''_server'' \<noteq> None"
    using assms(2) by (simp add: heap_extends_def)
qed

lemma registry_okD:
  assumes "registry_ok (h, w)" and "map_of (mcp_clients h) s = Some c"
  shows "\<And>a. a \<in> set (cache_list c) \<Longrightarrow> a < length (heap w)"
    and "\<And>a v. a \<in> set (cache_list c) \<Longrightarrow> dict_get (heap w ! a) ''_server'' = Some v \<Longrightarrow> v = PStr s"
    and "\<And>s' c'. map_of (mcp_clients h) s' = Some c' \<Longrightarrow> s \<noteq> s' \<Longrightarrow>
           set (cache_list c) \<inter> set (cache_list c') = {}"
  using assms unfolding registry_ok_def by (simp, blast, blast)

lemma collect_step:
  assumes ok: "registry_ok (h, w)"
      and reg: "map_of (mcp_clients h) s = Some c"
      and g: "get_tools sdk (c, w) = (Inr (Some tools), c1, w1)"
  shows "registry_ok (h\<lparr>mcp_clients := AList.update s c1 (mcp_clients h)\<rparr>, tag_tools s tools w1)
       \<and> heap_extends w (tag_tools s tools w1)
       \<and> tools_cache c1 = Some tools
       \<and> (\<forall>a \<in> set tools. a < length (heap (tag_tools s tools w1))
             \<and> dict_get (heap (tag_tools s tools w1) ! a) ''_server'' = Some (PStr s))
       \<and> (tools_cache c \<noteq> None \<longrightarrow> c1 = c)
       \<and> initialized c1 \<and> session c1 \<noteq> None"
proof -
  let ?w' = "tag_tools s tools w1"
  let ?h' = "h\<lparr>mcp_clients := AList.update s c1 (mcp_clients h)\<rparr>"
  from get_tools_Inr[OF g] obtain sess where
    c1: "tools_cache c1 = Some tools" "session c1 = Some sess" "initialized c1"
    and same: "tools_cache c \<noteq> None \<longrightarrow> c1 = c \<and> w1 = w"
    by auto
  from get_tools_heap[OF g] have
    le: "length (heap w) \<le> length (heap w1)"
    and old: "\<And>a. a < length (heap w) \<Longrightarrow> heap w1 ! a = heap w ! a"
    and fresh: "tools_cache c = None \<Longrightarrow> (\<forall>a \<in> set (cache_list c1). length (heap w) \<le> a
         \<and> a < length (heap w1) \<and> dict_get (heap w1 ! a) ''_server'' = None)"
    by auto
  have cl: "cache_list c1 = tools" using c1 by (simp add: cache_list_def)
  have len: "length (heap ?w') = length (heap w1)" by (simp add: tag_tools_frame)
  have nth: "\<And>a. a < length (heap w1) \<Longrightarrow> heap ?w' ! a =
      (if a \<in> set tools then dict_set (heap w1 ! a) ''_server'' (PStr s) else heap w1 ! a)"
    by (rule tag_tools_nth)
  have k1: "\<And>a. a \<in> set tools \<Longrightarrow> a < length (heap w1)"
  proof (cases "tools_cache c")
    case None
    fix a assume "a \<in> set tools"
    with fresh[OF None] cl show "a < length (heap w1)" by simp
  next
    case (Some l)
    fix a assume a: "a \<in> set tools"
    from Some same have "c1 = c" by simp
    with cl a registry_okD(1)[OF ok reg] le show "a < length (heap w1)" by fastforce
  qed
  have k2: "\<And>s' c' a. map_of (mcp_clients h) s' = Some c' \<Longrightarrow> s' \<noteq> s \<Longrightarrow>
      a \<in> set (cache_list c') \<Longrightarrow> a \<notin> set tools"
  proof (cases "tools_cache c")
    case None
    fix s' c' a assume r: "map_of (mcp_clients h) s' = Some c'" and a: "a \<in> set (cache_list c')"
    have "a < length (heap w)" using registry_okD(1)[OF ok r a] .
    with fresh[OF None] cl show "a \<notin> set tools" by fastforce
  next
    case (Some l)
    fix s' c' a assume r: "map_of (mcp_clients h) s' = Some c'" and ne: "s' \<noteq> s"
      and a: "a \<in> set (cache_list c')"
    from Some same have "c1 = c" by simp
    with cl have "cache_list c = tools" by simp
    with registry_okD(3)[OF ok reg r] ne a show "a \<notin> set tools" by auto
  qed
  have tagged: "\<forall>a \<in> set tools. a < length (heap ?w')
             \<and> dict_get (heap ?w' ! a) ''_server'' = Some (PStr s)"
    using k1 nth len by (simp add: dict_get_set)
  have ext: "heap_extends w ?w'"
    unfolding heap_extends_def
  proof (intro conjI allI impI)
    show "length (heap w) \<le> length (heap ?w')" using le len by simp
  next
    fix a k assume a: "a < length (heap w)" and k: "k \<noteq> ''_server''"
    then have "a < length (heap w1)" using le by simp
    then show "dict_get (heap ?w' ! a) k = dict_get (heap w ! a) k"
      using nth[of a] old[OF a] k by (simp add: dict_get_set)
  next
    fix a assume a: "a < length (heap w)" and t: "dict_get (heap w ! a) ''_server'' \<noteq> None"
    then have "a < length (heap w1)" using le by simp
    then show "dict_get (heap ?w' ! a) ''_server'' \<noteq> None"
      using nth[of a] old[OF a] t by (simp add: dict_get_set)
  qed
  have mp: "map_of (mcp_clients ?h') = (map_of (mcp_clients h))(s \<mapsto> c1)"
    by (simp add: update_conv')
  have others: "\<And>s' c' a. map_of (mcp_clients h) s' = Some c' \<Longrightarrow> s' \<noteq> s \<Longrightarrow>
      a \<in> set (cache_list c') \<Longrightarrow> a < length (heap ?w') \<and> heap ?w' ! a = heap w ! a"
  proof -
    fix s' c' a assume r: "map_of (mcp_clients h) s' = Some c'" and ne: "s' \<noteq> s"
      and a: "a \<in> set (cache_list c')"
    have lt: "a < length (heap w)" using registry_okD(1)[OF ok r a] .
    then have lt1: "a < length (heap w1)" using le by simp
    have "a \<notin> set tools" using k2[OF r ne a] .
    then show "a < length (heap ?w') \<and> heap ?w' ! a = heap w ! a"
      using nth[OF lt1] old[OF lt] lt1 len by simp
  qed
  have rok: "registry_ok (?h', ?w')"
    unfolding registry_ok_def
  proof (simp only: prod.case, intro conjI allI impI)
    have "distinct (map fst (mcp_clients h))" using ok by (simp add: registry_ok_def)
    then show "distinct (map fst (mcp_clients ?h'))" by (simp add: distinct_update)
  next
    fix s' c' assume r: "map_of (mcp_clients ?h') s' = Some c'"
    show "\<forall>a \<in> set (cache_list c'). a < length (heap ?w')
            \<and> (\<forall>v. dict_get (heap ?w' ! a) ''_server'' = Some v \<longrightarrow> v = PStr s')"
    proof (cases "s' = s")
      case True
      with r mp have "c' = c1" by simp
      with True cl tagged show ?thesis by simp
    next
      case False
      with r mp have r0: "map_of (mcp_clients h) s' = Some c'" by simp
      show ?thesis
        using others[OF r0 False] registry_okD(2)[OF ok r0] by simp
    qed
  next
    fix s2 c2 s3 c3
    assume p: "map_of (mcp_clients ?h') s2 = Some c2 \<and> map_of (mcp_clients ?h') s3 = Some c3 \<and> s2 \<noteq> s3"
    show "set (cache_list c2) \<inter> set (cache_list c3) = {}"
    proof (cases "s2 = s")
      case True
      with p mp have "c2 = c1" "map_of (mcp_clients h) s3 = Some c3" "s3 \<noteq> s" by auto
      with k2 cl show ?thesis by blast
    next
      case False
      note ne2 = False
      with p mp have r2: "map_of (mcp_clients h) s2 = Some c2" by simp
      show ?thesis
      proof (cases "s3 = s")
        case True
        with p mp have "c3 = c1" by simp
        with k2[OF r2 ne2] cl show ?thesis by blast
      next
        case False
        with p mp have "map_of (mcp_clients h) s3 = Some c3" by simp
        with registry_okD(3)[OF ok r2] p show ?thesis by blast
      qed
    qed
  qed
  show ?thesis
    using rok ext c1 tagged same by simp
qed


lemma ensure_ok:
  assumes "registry_ok (h, w)"
      and "ensure_clients_connected sdk scripts (h, w) = (Inr u, h1, w1)"
  shows "registry_ok (h1, w1) \<and> heap w1 = heap w
       \<and> (\<forall>s \<in> set scripts. map_of (mcp_clients h1) s \<noteq> None)
       \<and> (\<forall>s c. map_of (mcp_clients h) s = Some c \<longrightarrow> map_of (mcp_clients h1) s = Some c)"
  using assms
proof (induction scripts arbitrary: h w)
  case Nil
  then show ?case by simp
next
  case (Cons s rest)
  show ?case
  proof (cases "map_of (mcp_clients h) s")
    case (Some c)
    with Cons.prems have r: "ensure_clients_connected sdk rest (h, w) = (Inr u, h1, w1)"
      by simp
    from Cons.IH[OF Cons.prems(1) r] Some show ?thesis by auto
  next
    case None
    obtain x c1 w' where cn: "connect sdk (MCPClient_init s, w) = (x, c1, w')"
      by (cases "connect sdk (MCPClient_init s, w)") auto
    let ?h' = "h\<lparr>mcp_clients := AList.update s c1 (mcp_clients h)\<rparr>"
    from Cons.prems(2) None cn have x: "x = Inr ()"
      and r: "ensure_clients_connected sdk rest (?h', w') = (Inr u, h1, w1)"
      by (auto split: sum.splits)
    from connect_init_Inr[of sdk s w "()" c1 w'] cn x have
      c1: "initialized c1" "session c1 \<noteq> None" "tools_cache c1 = None" and hp: "heap w' = heap w"
      by auto
    have mp: "map_of (mcp_clients ?h') = (map_of (mcp_clients h))(s \<mapsto> c1)"
      by (simp add: update_conv')
    have cl: "cache_list c1 = []" using c1 by (simp add: cache_list_def)
    have ok': "registry_ok (?h', w')"
      unfolding registry_ok_def
    proof (simp only: prod.case, intro conjI allI impI)
      have "distinct (map fst (mcp_clients h))" using Cons.prems(1) by (simp add: registry_ok_def)
      then show "distinct (map fst (mcp_clients ?h'))" by (simp add: distinct_update)
    next
      fix s' c' assume q: "map_of (mcp_clients ?h') s' = Some c'"
      show "\<forall>a \<in> set (cache_list c'). a < length (heap w')
            \<and> (\<forall>v. dict_get (heap w' ! a) ''_server'' = Some v \<longrightarrow> v = PStr s')"
      proof (cases "s' = s")
        case True
        with q mp cl show ?thesis by simp
      next
        case False
        with q mp have r0: "map_of (mcp_clients h) s' = Some c'" by simp
        show ?thesis
          using registry_okD(1)[OF Cons.prems(1) r0] registry_okD(2)[OF Cons.prems(1) r0] hp
          by simp
      qed
    next
      fix s2 c2 s3 c3
      assume p: "map_of (mcp_clients ?h') s2 = Some c2 \<and> map_of (mcp_clients ?h') s3 = Some c3 \<and> s2 \<noteq> s3"
      show "set (cache_list c2) \<inter> set (cache_list c3) = {}"
      proof (cases "s2 = s \<or> s3 = s")
        case True
        with p mp cl show ?thesis by (auto split: if_splits)
      next
        case False
        with p mp have r2: "map_of (mcp_clients h) s2 = Some c2"
          and r3: "map_of (mcp_clients h) s3 = Some c3" by simp_all
        with registry_okD(3)[OF Cons.prems(1) r2 r3] p show ?thesis by simp
      qed
    qed
    from Cons.IH[OF ok' r] have ih: "registry_ok (h1, w1)" "heap w1 = heap w'"
      "\<forall>s \<in> set rest. map_of (mcp_clients h1) s \<noteq> None"
      "\<And>s2 c2. map_of (mcp_clients ?h') s2 = Some c2 \<Longrightarrow> map_of (mcp_clients h1) s2 = Some c2"
      by auto
    have "map_of (mcp_clients h1) s \<noteq> None"
      using ih(4)[of s c1] mp by simp
    moreover have "\<forall>s2 c2. map_of (mcp_clients h) s2 = Some c2 \<longrightarrow> map_of (mcp_clients h1) s2 = Some c2"
    proof (intro allI impI)
      fix s2 c2 assume q: "map_of (mcp_clients h) s2 = Some c2"
      with None have "s2 \<noteq> s" by auto
      with q mp have "map_of (mcp_clients ?h') s2 = Some c2" by simp
      then show "map_of (mcp_clients h1) s2 = Some c2" by (rule ih(4))
    qed
    ultimately show ?thesis
      using ih(1,2,3) hp by simp
  qed
qed

lemma ensure_registered:
  assumes "\<forall>s \<in> set scripts. map_of (mcp_clients h) s \<noteq> None"
  shows "ensure_clients_connected sdk scripts (h, w) = (Inr (), h, w)"
  using assms by (induction scripts) auto


lemma collect_ok:
  assumes "registry_ok (h, w)"
      and "collect_tools sdk scripts acc (h, w) = (Inr all_tools, h1, w1)"
  shows "registry_ok (h1, w1) \<and> heap_extends w w1
       \<and> all_tools = acc @ concat (map (cache_of h1) scripts)
       \<and> (\<forall>s \<in> set scripts. map_of (mcp_clients h) s \<noteq> None \<longrightarrow>
             (\<exists>c1 l. map_of (mcp_clients h1) s = Some c1 \<and> tools_cache c1 = Some l
                \<and> initialized c1 \<and> session c1 \<noteq> None
                \<and> (\<forall>a \<in> set l. a < length (heap w1)
                      \<and> dict_get (heap w1 ! a) ''_server'' = Some (PStr s))))
       \<and> (\<forall>s c. map_of (mcp_clients h) s = Some c \<and> tools_cache c \<noteq> None \<longrightarrow>
             map_of (mcp_clients h1) s = Some c)
       \<and> (\<forall>s. (map_of (mcp_clients h1) s = None) = (map_of (mcp_clients h) s = None))"
  using assms
proof (induction scripts arbitrary: acc h w)
  case Nil
  then show ?case by (simp add: heap_extends_refl)
next
  case (Cons s rest)
  show ?case
  proof (cases "map_of (mcp_clients h) s")
    case None
    with Cons.prems have r: "collect_tools sdk rest acc (h, w) = (Inr all_tools, h1, w1)"
      by simp
    from Cons.IH[OF Cons.prems(1) r] have ih:
      "registry_ok (h1, w1)" "heap_extends w w1"
      "all_tools = acc @ concat (map (cache_of h1) rest)"
      "\<forall>s \<in> set rest. map_of (mcp_clients h) s \<noteq> None \<longrightarrow>
             (\<exists>c1 l. map_of (mcp_clients h1) s = Some c1 \<and> tools_cache c1 = Some l
                \<and> initialized c1 \<and> session c1 \<noteq> None
                \<and> (\<forall>a \<in> set l. a < length (heap w1)
                      \<and> dict_get (heap w1 ! a) ''_server'' = Some (PStr s)))"
      "\<forall>s c. map_of (mcp_clients h) s = Some c \<and> tools_cache c \<noteq> None \<longrightarrow>
             map_of (mcp_clients h1) s = Some c"
      "\<forall>s. (map_of (mcp_clients h1) s = None) = (map_of (mcp_clients h) s = None)"
      by simp_all
    have "map_of (mcp_clients h1) s = None" using ih(6) None by blast
    then have "cache_of h1 s = []" by (simp add: cache_of_def)
    with ih None show ?thesis by simp
  next
    case (Some c)
    obtain x c1 w' where g0: "get_tools sdk (c, w) = (x, c1, w')"
      by (cases "get_tools sdk (c, w)") auto
    let ?h' = "h\<lparr>mcp_clients := AList.update s c1 (mcp_clients h)\<rparr>"
    from Cons.prems(2) Some g0 obtain tools where x: "x = Inr (Some tools)"
      and r: "collect_tools sdk rest (acc @ tools) (?h', tag_tools s tools w') = (Inr all_tools, h1, w1)"
      by (auto split: sum.splits option.splits)
    let ?w' = "tag_tools s tools w'"
    have g: "get_tools sdk (c, w) = (Inr (Some tools), c1, w')" using g0 x by simp
    from collect_step[OF Cons.prems(1) Some g] have st:
      "registry_ok (?h', ?w')" "heap_extends w ?w'" "tools_cache c1 = Some tools"
      "\<forall>a \<in> set tools. a < length (heap ?w') \<and> dict_get (heap ?w' ! a) ''_server'' = Some (PStr s)"
      "tools_cache c \<noteq> None \<longrightarrow> c1 = c" "initialized c1" "session c1 \<noteq> None"
      by simp_all
    have mp: "map_of (mcp_clients ?h') = (map_of (mcp_clients h))(s \<mapsto> c1)"
      by (simp add: update_conv')
    from Cons.IH[OF st(1) r] have ih:
      "registry_ok (h1, w1)" "heap_extends ?w' w1"
      "all_tools = (acc @ tools) @ concat (map (cache_of h1) rest)"
      "\<forall>s \<in> set rest. map_of (mcp_clients ?h') s \<noteq> None \<longrightarrow>
             (\<exists>c1 l. map_of (mcp_clients h1) s = Some c1 \<and> tools_cache c1 = Some l
                \<and> initialized c1 \<and> session c1 \<noteq> None
                \<and> (\<forall>a \<in> set l. a < length (heap w1)
                      \<and> dict_get (heap w1 ! a) ''_server'' = Some (PStr s)))"
      "\<And>s2 c2. map_of (mcp_clients ?h') s2 = Some c2 \<Longrightarrow> tools_cache c2 \<noteq> None \<Longrightarrow>
             map_of (mcp_clients h1) s2 = Some c2"
      "\<forall>s. (map_of (mcp_clients h1) s = None) = (map_of (mcp_clients ?h') s = None)"
      by simp_all
    have reg1: "map_of (mcp_clients h1) s = Some c1"
      using ih(5)[of s c1] mp st(3) by simp
    then have co: "cache_of h1 s = tools"
      using st(3) by (simp add: cache_of_def cache_list_def)
    have ext: "heap_extends w w1"
      using heap_extends_trans[OF st(2) ih(2)] .
    have tg: "\<forall>a \<in> set tools. a < length (heap w1)
                      \<and> dict_get (heap w1 ! a) ''_server'' = Some (PStr s)"
    proof
      fix a assume a: "a \<in> set tools"
      with st(4) have lt: "a < length (heap ?w')"
        and t: "dict_get (heap ?w' ! a) ''_server'' \<noteq> None" by simp_all
      from ih(2) lt t have lt1: "a < length (heap w1)"
        and t1: "dict_get (heap w1 ! a) ''_server'' \<noteq> None"
        by (simp_all add: heap_extends_def)
      then obtain v where v: "dict_get (heap w1 ! a) ''_server'' = Some v" by auto
      have "a \<in> set (cache_list c1)" using a st(3) by (simp add: cache_list_def)
      from registry_okD(2)[OF ih(1) reg1 this v] v lt1
      show "a < length (heap w1) \<and> dict_get (heap w1 ! a) ''_server'' = Some (PStr s)"
        by simp
    qed
    have tags: "\<forall>s2 \<in> set (s # rest). map_of (mcp_clients h) s2 \<noteq> None \<longrightarrow>
             (\<exists>c1 l. map_of (mcp_clients h1) s2 = Some c1 \<and> tools_cache c1 = Some l
                \<and> initialized c1 \<and> session c1 \<noteq> None
                \<and> (\<forall>a \<in> set l. a < length (heap w1)
                      \<and> dict_get (heap w1 ! a) ''_server'' = Some (PStr s2)))"
    proof (intro ballI impI)
      fix s2 assume m: "s2 \<in> set (s # rest)" and q: "map_of (mcp_clients h) s2 \<noteq> None"
      show "\<exists>c1 l. map_of (mcp_clients h1) s2 = Some c1 \<and> tools_cache c1 = Some l
                \<and> initialized c1 \<and> session c1 \<noteq> None
                \<and> (\<forall>a \<in> set l. a < length (heap w1)
                      \<and> dict_get (heap w1 ! a) ''_server'' = Some (PStr s2))"
      proof (cases "s2 = s")
        case True
        with reg1 st(3,6,7) tg show ?thesis by blast
      next
        case False
        with m have "s2 \<in> set rest" by simp
        moreover have "map_of (mcp_clients ?h') s2 \<noteq> None" using q False mp by simp
        ultimately show ?thesis using ih(4) by blast
      qed
    qed
    have stable: "\<forall>s2 c2. map_of (mcp_clients h) s2 = Some c2 \<and> tools_cache c2 \<noteq> None \<longrightarrow>
             map_of (mcp_clients h1) s2 = Some c2"
    proof (intro allI impI)
      fix s2 c2 assume q: "map_of (mcp_clients h) s2 = Some c2 \<and> tools_cache c2 \<noteq> None"
      show "map_of (mcp_clients h1) s2 = Some c2"
      proof (cases "s2 = s")
        case True
        with q Some have "c2 = c" by simp
        with q st(5) have "c1 = c2" by simp
        with reg1 True show ?thesis by simp
      next
        case False
        with q mp have "map_of (mcp_clients ?h') s2 = Some c2" by simp
        with q show ?thesis using ih(5) by blast
      qed
    qed
    have dom: "\<forall>s2. (map_of (mcp_clients h1) s2 = None) = (map_of (mcp_clients h) s2 = None)"
      using ih(6) mp Some by auto
    show ?thesis
      using ih(1) ext ih(3) co tags stable dom by simp
  qed
qed

lemma get_tools_cached:
  "session c = Some x \<Longrightarrow> initialized c \<Longrightarrow> tools_cache c = Some l \<Longrightarrow>
   get_tools sdk (c, w) = (Inr (Some l), c, w)"
  by (simp add: get_tools_def)

lemma collect_again:
  assumes "\<forall>s \<in> set scripts. \<exists>c l. map_of (mcp_clients h) s = Some c \<and> initialized c
             \<and> session c \<noteq> None \<and> tools_cache c = Some l
             \<and> (\<forall>a \<in> set l. a < length (heap w)
                   \<and> dict_get (heap w ! a) ''_server'' = Some (PStr s))"
  shows "collect_tools sdk scripts acc (h, w) =
           (Inr (acc @ concat (map (cache_of h) scripts)), h, w)"
  using assms
proof (induction scripts arbitrary: acc)
  case Nil
  show ?case by simp
next
  case (Cons s rest)
  from Cons.prems obtain c l x where c: "map_of (mcp_clients h) s = Some c" "initialized c"
    "session c = Some x" "tools_cache c = Some l"
    "\<forall>a \<in> set l. a < length (heap w) \<and> dict_get (heap w ! a) ''_server'' = Some (PStr s)"
    by auto
  have g: "get_tools sdk (c, w) = (Inr (Some l), c, w)"
    using c by (simp add: get_tools_cached)
  have t: "tag_tools s l w = w"
    using c(5) by (rule tag_tools_id)
  have u: "h\<lparr>mcp_clients := AList.update s c (mcp_clients h)\<rparr> = h"
    using c(1) by (simp add: update_triv)
  have co: "cache_of h s = l"
    using c by (simp add: cache_of_def cache_list_def)
  have "collect_tools sdk rest (acc @ l) (h, w) =
      (Inr ((acc @ l) @ concat (map (cache_of h) rest)), h, w)"
    using Cons.IH[of "acc @ l"] Cons.prems by simp
  then show ?case
    using c(1) g t u co by simp
qed


lemma merge_ok:
  assumes "registry_ok (h, w)"
      and "get_tools_from_clients sdk scripts (h, w) = (Inr all_tools, h1, w1)"
  shows "registry_ok (h1, w1) \<and> heap_extends w w1
       \<and> all_tools = concat (map (cache_of h1) scripts)
       \<and> (\<forall>s \<in> set scripts. \<exists>c1 l. map_of (mcp_clients h1) s = Some c1 \<and> tools_cache c1 = Some l
                \<and> initialized c1 \<and> session c1 \<noteq> None
                \<and> (\<forall>a \<in> set l. a < length (heap w1)
                      \<and> dict_get (heap w1 ! a) ''_server'' = Some (PStr s)))
       \<and> (\<forall>s c. map_of (mcp_clients h) s = Some c \<and> tools_cache c \<noteq> None \<longrightarrow>
             map_of (mcp_clients h1) s = Some c)"
proof -
  obtain x h0 w0 where e: "ensure_clients_connected sdk scripts (h, w) = (x, h0, w0)"
    by (cases "ensure_clients_connected sdk scripts (h, w)") auto
  with assms(2) have x: "x = Inr ()"
    and c: "collect_tools sdk scripts [] (h0, w0) = (Inr all_tools, h1, w1)"
    by (auto simp: get_tools_from_clients_def split: sum.splits)
  from ensure_ok[OF assms(1), of sdk scripts "()" h0 w0] e x have en:
    "registry_ok (h0, w0)" "heap w0 = heap w"
    "\<forall>s \<in> set scripts. map_of (mcp_clients h0) s \<noteq> None"
    "\<forall>s c. map_of (mcp_clients h) s = Some c \<longrightarrow> map_of (mcp_clients h0) s = Some c"
    by simp_all
  from collect_ok[OF en(1) c] have co:
    "registry_ok (h1, w1)" "heap_extends w0 w1"
    "all_tools = concat (map (cache_of h1) scripts)"
    "\<forall>s \<in> set scripts. map_of (mcp_clients h0) s \<noteq> None \<longrightarrow>
             (\<exists>c1 l. map_of (mcp_clients h1) s = Some c1 \<and> tools_cache c1 = Some l
                \<and> initialized c1 \<and> session c1 \<noteq> None
                \<and> (\<forall>a \<in> set l. a < length (heap w1)
                      \<and> dict_get (heap w1 ! a) ''_server'' = Some (PStr s)))"
    "\<forall>s c. map_of (mcp_clients h0) s = Some c \<and> tools_cache c \<noteq> None \<longrightarrow>
             map_of (mcp_clients h1) s = Some c"
    by simp_all
  have "heap_extends w w1"
    using co(2) en(2) by (simp add: heap_extends_def)
  moreover have "\<forall>s \<in> set scripts. \<exists>c1 l. map_of (mcp_clients h1) s = Some c1 \<and> tools_cache c1 = Some l
                \<and> initialized c1 \<and> session c1 \<noteq> None
                \<and> (\<forall>a \<in> set l. a < length (heap w1)
                      \<and> dict_get (heap w1 ! a) ''_server'' = Some (PStr s))"
    using co(4) en(3) by blast
  moreover have "\<forall>s c. map_of (mcp_clients h) s = Some c \<and> tools_cache c \<noteq> None \<longrightarrow>
             map_of (mcp_clients h1) s = Some c"
    using co(5) en(4) by blast
  ultimately show ?thesis
    using co(1,3) by simp
qed

lemma merge_again:
  assumes "\<forall>s \<in> set scripts. \<exists>c1 l. map_of (mcp_clients h1) s = Some c1 \<and> tools_cache c1 = Some l
                \<and> initialized c1 \<and> session c1 \<noteq> None
                \<and> (\<forall>a \<in> set l. a < length (heap w1)
                      \<and> dict_get (heap w1 ! a) ''_server'' = Some (PStr s))"
  shows "get_tools_from_clients sdk scripts (h1, w1) =
           (Inr (concat (map (cache_of h1) scripts)), h1, w1)"
proof -
  have reg: "\<forall>s \<in> set scripts. map_of (mcp_clients h1) s \<noteq> None"
    using assms by auto
  have "\<forall>s \<in> set scripts. \<exists>c l. map_of (mcp_clients h1) s = Some c \<and> initialized c
             \<and> session c \<noteq> None \<and> tools_cache c = Some l
             \<and> (\<forall>a \<in> set l. a < length (heap w1)
                   \<and> dict_get (heap w1 ! a) ''_server'' = Some (PStr s))"
    using assms by blast
  from collect_again[OF this, of sdk "[]"] ensure_registered[OF reg, of sdk w1]
  show ?thesis by (simp add: get_tools_from_clients_def)
qed

lemma tool_server_find:
  "tool_server ds name =
     (case find (\<lambda>d. dict_get d ''name'' = Some (PStr name)) ds of
        None \<Rightarrow> PNone
      | Some d \<Rightarrow> (case dict_get d ''_server'' of None \<Rightarrow> PNone | Some v \<Rightarrow> v))"
  by (induction ds) simp_all

lemma tool_server_append:
  "tool_server (xs @ ys) name =
     (if \<exists>d \<in> set xs. dict_get d ''name'' = Some (PStr name)
      then tool_server xs name else tool_server ys name)"
  by (induction xs) simp_all

lemma tool_server_tagged:
  assumes "\<forall>d \<in> set ds. dict_get d ''_server'' = Some v"
      and "\<exists>d \<in> set ds. dict_get d ''name'' = Some (PStr name)"
  shows "tool_server ds name = v"
  using assms by (induction ds) auto

lemma tool_server_concat:
  assumes "i < length ss"
      and "\<forall>j < i. \<forall>d \<in> set (D (ss ! j)). dict_get d ''name'' \<noteq> Some (PStr name)"
      and "\<exists>d \<in> set (D (ss ! i)). dict_get d ''name'' = Some (PStr name)"
      and "\<forall>d \<in> set (D (ss ! i)). dict_get d ''_server'' = Some v"
  shows "tool_server (concat (map D ss)) name = v"
  using assms
proof (induction ss arbitrary: i)
  case Nil
  then show ?case by simp
next
  case (Cons s ss)
  show ?case
  proof (cases i)
    case 0
    with Cons.prems show ?thesis
      by (simp add: tool_server_append tool_server_tagged)
  next
    case (Suc k)
    have first: "\<not> (\<exists>d \<in> set (D s). dict_get d ''name'' = Some (PStr name))"
      using Cons.prems(2) Suc by fastforce
    have "tool_server (concat (map D ss)) name = v"
    proof (rule Cons.IH[of k])
      show "k < length ss" using Cons.prems(1) Suc by simp
      show "\<forall>j < k. \<forall>d \<in> set (D (ss ! j)). dict_get d ''name'' \<noteq> Some (PStr name)"
      proof (intro allI impI)
        fix j assume "j < k"
        then have "Suc j < i" using Suc by simp
        with Cons.prems(2) have "\<forall>d \<in> set (D ((s # ss) ! Suc j)). dict_get d ''name'' \<noteq> Some (PStr name)"
          by blast
        then show "\<forall>d \<in> set (D (ss ! j)). dict_get d ''name'' \<noteq> Some (PStr name)" by simp
      qed
      show "\<exists>d \<in> set (D (ss ! k)). dict_get d ''name'' = Some (PStr name)"
        using Cons.prems(3) Suc by simp
      show "\<forall>d \<in> set (D (ss ! k)). dict_get d ''_server'' = Some v"
        using Cons.prems(4) Suc by simp
    qed
    with first show ?thesis by (simp add: tool_server_append)
  qed
qed

lemma deref_concat: "deref w (concat (map f ss)) = concat (map (\<lambda>s. deref w (f s)) ss)"
  by (induction ss) (simp_all add: deref_def)

text \<open>The registry invariant holds again after a merge and after a bulk teardown,
  whatever they return; it holds of the empty registry.\<close>

lemma await_heap: "await ev f w = (r, w1) \<Longrightarrow> heap w1 = heap w"
  by (auto simp: await_def split: prod.splits)

lemma cleanup_frame:
  assumes "cleanup sdk (c, w) = (r, c1, w1)"
  shows "heap w1 = heap w \<and> set (cache_list c1) \<subseteq> set (cache_list c)"
  using assms
  by (auto simp: cleanup_def cleanup_session_def cleanup_stdio_def await_def Let_def
      cache_list_def split: prod.splits sum.splits option.splits if_splits)

lemma connect_body_heap:
  assumes "connect_body sdk (c, w) = (r, c1, w1)"
  shows "heap w1 = heap w \<and> tools_cache c1 = tools_cache c"
  using assms
  by (auto simp: connect_body_def await_def Let_def split: prod.splits sum.splits)

lemma connect_heap:
  assumes "connect sdk (c, w) = (r, c1, w1)"
  shows "heap w1 = heap w"
proof (cases "session c = None")
  case False
  with assms show ?thesis by (simp add: connect_def)
next
  case True
  obtain x c' w' where b: "connect_body sdk (c, w) = (x, c', w')"
    by (cases "connect_body sdk (c, w)") auto
  have h': "heap w' = heap w" using connect_body_heap[OF b] by simp
  show ?thesis
  proof (cases x)
    case (Inr u)
    with assms True b h' show ?thesis by (simp add: connect_def)
  next
    case (Inl e)
    obtain y c2 w2 where cl: "cleanup sdk (c', w') = (y, c2, w2)"
      by (cases "cleanup sdk (c', w')") auto
    have "heap w2 = heap w'" using cleanup_frame[OF cl] by simp
    with assms True b Inl cl h' show ?thesis
      by (cases y; cases "isinstance e Exception") (simp_all add: connect_def)
  qed
qed

lemma registry_ok_heap:
  "registry_ok (h, w) \<Longrightarrow> heap w1 = heap w \<Longrightarrow> registry_ok (h, w1)"
  by (simp add: registry_ok_def)

lemma registry_ok_shrink:
  assumes ok: "registry_ok (h, w)" and reg: "map_of (mcp_clients h) s = Some c"
      and sub: "set (cache_list c1) \<subseteq> set (cache_list c)" and hp: "heap w1 = heap w"
  shows "registry_ok (h\<lparr>mcp_clients := AList.update s c1 (mcp_clients h)\<rparr>, w1)"
proof -
  let ?h' = "h\<lparr>mcp_clients := AList.update s c1 (mcp_clients h)\<rparr>"
  have mp: "map_of (mcp_clients ?h') = (map_of (mcp_clients h))(s \<mapsto> c1)"
    by (simp add: update_conv')
  have sm: "\<And>s' c'. map_of (mcp_clients ?h') s' = Some c' \<Longrightarrow>
      \<exists>c0. map_of (mcp_clients h) s' = Some c0 \<and> set (cache_list c') \<subseteq> set (cache_list c0)"
    using mp reg sub by (auto split: if_splits)
  show ?thesis
    unfolding registry_ok_def
  proof (simp only: prod.case, intro conjI allI impI)
    have "distinct (map fst (mcp_clients h))" using ok by (simp add: registry_ok_def)
    then show "distinct (map fst (mcp_clients ?h'))" by (simp add: distinct_update)
  next
    fix s' c' assume q: "map_of (mcp_clients ?h') s' = Some c'"
    from sm[OF q] obtain c0 where c0: "map_of (mcp_clients h) s' = Some c0"
      "set (cache_list c') \<subseteq> set (cache_list c0)" by blast
    show "\<forall>a \<in> set (cache_list c'). a < length (heap w1)
            \<and> (\<forall>v. dict_get (heap w1 ! a) ''_server'' = Some v \<longrightarrow> v = PStr s')"
      using registry_okD(1)[OF ok c0(1)] registry_okD(2)[OF ok c0(1)] c0(2) hp by auto
  next
    fix s2 c2 s3 c3
    assume p: "map_of (mcp_clients ?h') s2 = Some c2 \<and> map_of (mcp_clients ?h') s3 = Some c3 \<and> s2 \<noteq> s3"
    from p sm obtain d2 where d2: "map_of (mcp_clients h) s2 = Some d2"
      "set (cache_list c2) \<subseteq> set (cache_list d2)" by blast
    from p sm obtain d3 where d3: "map_of (mcp_clients h) s3 = Some d3"
      "set (cache_list c3) \<subseteq> set (cache_list d3)" by blast
    from registry_okD(3)[OF ok d2(1) d3(1)] p d2(2) d3(2)
    show "set (cache_list c2) \<inter> set (cache_list c3) = {}" by blast
  qed
qed

lemma registry_ok_grow:
  assumes ok: "registry_ok (h, w)" and reg: "map_of (mcp_clients h) s = Some c"
      and le: "length (heap w) \<le> length (heap w1)"
      and old: "\<forall>a < length (heap w). heap w1 ! a = heap w ! a"
      and new: "\<forall>a \<in> set (cache_list c1). a \<in> set (cache_list c)
             \<or> (length (heap w) \<le> a \<and> a < length (heap w1)
                 \<and> dict_get (heap w1 ! a) ''_server'' = None)"
  shows "registry_ok (h\<lparr>mcp_clients := AList.update s c1 (mcp_clients h)\<rparr>, w1)"
proof -
  let ?h' = "h\<lparr>mcp_clients := AList.update s c1 (mcp_clients h)\<rparr>"
  have mp: "map_of (mcp_clients ?h') = (map_of (mcp_clients h))(s \<mapsto> c1)"
    by (simp add: update_conv')
  have in_old: "\<And>s' c' a. map_of (mcp_clients h) s' = Some c' \<Longrightarrow> a \<in> set (cache_list c') \<Longrightarrow>
      a < length (heap w) \<and> a < length (heap w1) \<and> heap w1 ! a = heap w ! a"
    using registry_okD(1)[OF ok] le old by fastforce
  have one: "\<And>s' c' a. map_of (mcp_clients ?h') s' = Some c' \<Longrightarrow> a \<in> set (cache_list c') \<Longrightarrow>
      (\<exists>c0. map_of (mcp_clients h) s' = Some c0 \<and> a \<in> set (cache_list c0))
      \<or> (s' = s \<and> length (heap w) \<le> a \<and> a < length (heap w1)
           \<and> dict_get (heap w1 ! a) ''_server'' = None)"
  proof -
    fix s' c' a
    assume q: "map_of (mcp_clients ?h') s' = Some c'" and a: "a \<in> set (cache_list c')"
    show "(\<exists>c0. map_of (mcp_clients h) s' = Some c0 \<and> a \<in> set (cache_list c0))
      \<or> (s' = s \<and> length (heap w) \<le> a \<and> a < length (heap w1)
           \<and> dict_get (heap w1 ! a) ''_server'' = None)"
    proof (cases "s' = s")
      case True
      with q mp have "c' = c1" by simp
      with a new True reg show ?thesis by auto
    next
      case False
      with q mp have "map_of (mcp_clients h) s' = Some c'" by simp
      with a show ?thesis by blast
    qed
  qed
  show ?thesis
    unfolding registry_ok_def
  proof (simp only: prod.case, intro conjI allI impI ballI)
    have "distinct (map fst (mcp_clients h))" using ok by (simp add: registry_ok_def)
    then show "distinct (map fst (mcp_clients ?h'))" by (simp add: distinct_update)
  next
    fix s' c' a
    assume q: "map_of (mcp_clients ?h') s' = Some c'" and a: "a \<in> set (cache_list c')"
    from one[OF q a] show "a < length (heap w1)"
      using in_old by blast
  next
    fix s' c' a v
    assume q: "map_of (mcp_clients ?h') s' = Some c'" and a: "a \<in> set (cache_list c')"
      and v: "dict_get (heap w1 ! a) ''_server'' = Some v"
    from one[OF q a] v obtain c0 where c0: "map_of (mcp_clients h) s' = Some c0"
      "a \<in> set (cache_list c0)" by auto
    from in_old[OF c0] v have "dict_get (heap w ! a) ''_server'' = Some v" by simp
    from registry_okD(2)[OF ok c0(1) c0(2) this] show "v = PStr s'" .
  next
    fix s2 c2 s3 c3
    assume p: "map_of (mcp_clients ?h') s2 = Some c2 \<and> map_of (mcp_clients ?h') s3 = Some c3 \<and> s2 \<noteq> s3"
    show "set (cache_list c2) \<inter> set (cache_list c3) = {}"
    proof (rule ccontr)
      assume "set (cache_list c2) \<inter> set (cache_list c3) \<noteq> {}"
      then obtain a where a2: "a \<in> set (cache_list c2)" and a3: "a \<in> set (cache_list c3)"
        by blast
      from p have q2: "map_of (mcp_clients ?h') s2 = Some c2"
        and q3: "map_of (mcp_clients ?h') s3 = Some c3" and ne: "s2 \<noteq> s3" by simp_all
      from one[OF q2 a2] one[OF q3 a3] ne
      consider (both) d2 d3 where "map_of (mcp_clients h) s2 = Some d2" "a \<in> set (cache_list d2)"
          "map_of (mcp_clients h) s3 = Some d3" "a \<in> set (cache_list d3)"
        | (fresh) s' d where "map_of (mcp_clients h) s' = Some d" "a \<in> set (cache_list d)"
          "length (heap w) \<le> a"
        by blast
      then show False
      proof cases
        case both
        from registry_okD(3)[OF ok both(1) both(3) ne] both(2,4) show False by blast
      next
        case fresh
        from in_old[OF fresh(1,2)] fresh(3) show False by simp
      qed
    qed
  qed
qed

lemma ensure_preserves_ok:
  assumes "registry_ok (h, w)"
      and "ensure_clients_connected sdk scripts (h, w) = (x, h1, w1)"
  shows "registry_ok (h1, w1)"
proof (cases x)
  case (Inr u)
  with ensure_ok[OF assms(1), of sdk scripts u h1 w1] assms(2) show ?thesis by simp
next
  case (Inl e)
  with assms show ?thesis
  proof (induction scripts arbitrary: h w)
    case Nil
    then show ?case by simp
  next
    case (Cons s rest)
    show ?case
    proof (cases "map_of (mcp_clients h) s")
      case (Some c)
      with Cons.prems have "ensure_clients_connected sdk rest (h, w) = (x, h1, w1)" by simp
      from Cons.IH[OF Cons.prems(1) this Cons.prems(3)] show ?thesis .
    next
      case None
      obtain y c1 w' where cn: "connect sdk (MCPClient_init s, w) = (y, c1, w')"
        by (cases "connect sdk (MCPClient_init s, w)") auto
      have hp: "heap w' = heap w" using connect_heap[OF cn] .
      show ?thesis
      proof (cases y)
        case (Inl e')
        with Cons.prems(2) None cn have "h1 = h" "w1 = w'" by simp_all
        with registry_ok_heap[OF Cons.prems(1) hp] show ?thesis by simp
      next
        case (Inr u)
        let ?h' = "h\<lparr>mcp_clients := AList.update s c1 (mcp_clients h)\<rparr>"
        from Cons.prems(2) None cn Inr
        have r: "ensure_clients_connected sdk rest (?h', w') = (x, h1, w1)" by simp
        have "ensure_clients_connected sdk [s] (h, w) = (Inr (), ?h', w')"
          using None cn Inr by simp
        from ensure_ok[OF Cons.prems(1) this] have "registry_ok (?h', w')" by simp
        from Cons.IH[OF this r Cons.prems(3)] show ?thesis .
      qed
    qed
  qed
qed

lemma collect_preserves_ok:
  assumes "registry_ok (h, w)"
      and "collect_tools sdk scripts acc (h, w) = (x, h1, w1)"
  shows "registry_ok (h1, w1)"
  using assms
proof (induction scripts arbitrary: acc h w)
  case Nil
  then show ?case by simp
next
  case (Cons s rest)
  show ?case
  proof (cases "map_of (mcp_clients h) s")
    case None
    with Cons.prems have "collect_tools sdk rest acc (h, w) = (x, h1, w1)" by simp
    from Cons.IH[OF Cons.prems(1) this] show ?thesis .
  next
    case (Some c)
    obtain y c1 w' where g: "get_tools sdk (c, w) = (y, c1, w')"
      by (cases "get_tools sdk (c, w)") auto
    let ?h' = "h\<lparr>mcp_clients := AList.update s c1 (mcp_clients h)\<rparr>"
    show ?thesis
    proof (cases y)
      case (Inl e)
      from get_tools_frame[OF g]
      have f: "length (heap w) \<le> length (heap w')"
        "\<forall>a < length (heap w). heap w' ! a = heap w ! a"
        "\<forall>a \<in> set (cache_list c1). a \<in> set (cache_list c)
             \<or> (length (heap w) \<le> a \<and> a < length (heap w')
                 \<and> dict_get (heap w' ! a) ''_server'' = None)"
        by simp_all
      have "registry_ok (?h', w')"
        using registry_ok_grow[OF Cons.prems(1) Some f] .
      moreover have "h1 = ?h'" "w1 = w'"
        using Cons.prems(2) Some g Inl by simp_all
      ultimately show ?thesis by simp
    next
      case (Inr ts)
      with get_tools_Inr[of sdk c w ts c1 w'] g obtain tools where ts: "ts = Some tools"
        by auto
      with g Inr have g': "get_tools sdk (c, w) = (Inr (Some tools), c1, w')" by simp
      from collect_step[OF Cons.prems(1) Some g'] have ok': "registry_ok (?h', tag_tools s tools w')"
        by simp
      have "collect_tools sdk rest (acc @ tools) (?h', tag_tools s tools w') = (x, h1, w1)"
        using Cons.prems(2) Some g' by simp
      from Cons.IH[OF ok' this] show ?thesis .
    qed
  qed
qed

lemma merge_preserves_ok:
  assumes "registry_ok hw"
  shows "registry_ok (snd (get_tools_from_clients sdk scripts hw))"
proof -
  obtain h w where hw: "hw = (h, w)" by (cases hw)
  obtain x h0 w0 where e: "ensure_clients_connected sdk scripts (h, w) = (x, h0, w0)"
    by (cases "ensure_clients_connected sdk scripts (h, w)") auto
  have ok0: "registry_ok (h0, w0)"
    using ensure_preserves_ok[OF _ e] assms hw by simp
  show ?thesis
  proof (cases x)
    case (Inl err)
    with e hw ok0 show ?thesis by (simp add: get_tools_from_clients_def)
  next
    case (Inr u)
    obtain y h1 w1 where c: "collect_tools sdk scripts [] (h0, w0) = (y, h1, w1)"
      by (cases "collect_tools sdk scripts [] (h0, w0)") auto
    from collect_preserves_ok[OF ok0 c] e Inr c hw show ?thesis
      by (simp add: get_tools_from_clients_def)
  qed
qed

lemma disconnect_clients_preserves_ok:
  assumes "registry_ok (h, w)"
      and "\<forall>(s, c) \<in> set cs. map_of (mcp_clients h) s = Some c"
      and "distinct (map fst cs)"
      and "disconnect_clients sdk cs (h, w) = (x, h1, w1)"
  shows "registry_ok (h1, w1)"
  using assms
proof (induction cs arbitrary: h w)
  case Nil
  then show ?case by simp
next
  case (Cons p cs)
  obtain s c where p: "p = (s, c)" by (cases p)
  obtain y c1 w' where d: "disconnect sdk (c, w) = (y, c1, w')"
    by (cases "disconnect sdk (c, w)") auto
  let ?h' = "h\<lparr>mcp_clients := AList.update s c1 (mcp_clients h)\<rparr>"
  have reg: "map_of (mcp_clients h) s = Some c" using Cons.prems(2) p by simp
  from cleanup_frame[of sdk c w y c1 w'] d
  have f: "heap w' = heap w" "set (cache_list c1) \<subseteq> set (cache_list c)"
    by (simp_all add: disconnect_def)
  have ok': "registry_ok (?h', w')"
    using registry_ok_shrink[OF Cons.prems(1) reg f(2) f(1)] .
  have rest: "\<forall>(s', c') \<in> set cs. map_of (mcp_clients ?h') s' = Some c'"
  proof (clarify)
    fix s' c' assume m: "(s', c') \<in> set cs"
    with Cons.prems(3) p have "s' \<noteq> s" by force
    moreover have "map_of (mcp_clients h) s' = Some c'" using Cons.prems(2) m by auto
    ultimately show "map_of (mcp_clients ?h') s' = Some c'" by (simp add: update_conv')
  qed
  have dis: "distinct (map fst cs)" using Cons.prems(3) by simp
  show ?case
  proof (cases "\<exists>e. y = Inl e \<and> \<not> isinstance e Exception")
    case True
    with Cons.prems(4) p d have "h1 = ?h'" "w1 = w'" by auto
    with ok' show ?thesis by simp
  next
    case False
    with Cons.prems(4) p d have "disconnect_clients sdk cs (?h', w') = (x, h1, w1)"
      by (cases y) auto
    from Cons.IH[OF ok' rest dis this] show ?thesis .
  qed
qed

lemma host_cleanup_preserves_ok:
  assumes "registry_ok hw"
  shows "registry_ok (snd (host_cleanup sdk hw))"
proof -
  obtain h w where hw: "hw = (h, w)" by (cases hw)
  obtain x h1 w1 where d: "disconnect_clients sdk (mcp_clients h) (h, w) = (x, h1, w1)"
    by (cases "disconnect_clients sdk (mcp_clients h) (h, w)") auto
  have dis: "distinct (map fst (mcp_clients h))"
    using assms hw by (simp add: registry_ok_def)
  then have "\<forall>(s, c) \<in> set (mcp_clients h). map_of (mcp_clients h) s = Some c"
    by auto
  from disconnect_clients_preserves_ok[OF _ this dis d] assms hw
  have ok1: "registry_ok (h1, w1)" by simp
  show ?thesis
  proof (cases x)
    case (Inl e)
    with d hw ok1 show ?thesis by (simp add: host_cleanup_def)
  next
    case (Inr u)
    with d hw show ?thesis by (simp add: host_cleanup_def registry_ok_def)
  qed
qed

lemma cache_of_registered:
  "a \<in> set (cache_of h s) \<Longrightarrow> \<exists>c. map_of (mcp_clients h) s = Some c \<and> a \<in> set (cache_list c)"
  by (cases "map_of (mcp_clients h) s") (simp_all add: cache_of_def)

lemma merge_example:
  "get_tools_from_clients example_sdk [''agent/server.py'', ''agent/experiment_server.py'']
     (\<lparr>mcp_clients = []\<rparr>, empty_world) = (Inr [0, 1, 2, 3], merged_host, merged_world)"
  by (simp add: get_tools_from_clients_def connect_def connect_body_def MCPClient_init_def
      empty_world_def example_sdk_def await_def Let_def
      get_tools_def fetch_tools_def alloc_def tool_dict_def input_schema_def
      description_or_empty_def catalog_def server_tools_def experiment_tools_def dict_set_def
      merged_host_def merged_world_def fetched_client_def connected_client_def experiment_client_def)

lemma registry_ok_empty: "registry_ok (\<lparr>mcp_clients = []\<rparr>, w)"
  by (simp add: registry_ok_def)

text \<open>
  Claim C10. A merge that returns gives the addresses held in the caches of the clients
  of the scripts, cache after cache: the dicts of the merged list are the dicts of the
  caches, not copies. After the merge every dict in the cache of the client of a
  script has that script under \<^verbatim>\<open>_server\<close>. The tagging loop changes the value under
  no other key of any dict, and the merge changes the value under no other key of a dict
  that existed before it. A second merge of the same scripts returns the same list and
  changes nothing, neither host nor world; and after any later merge that returns, the
  caches of these scripts hold the same addresses and their dicts still have the script
  under \<^verbatim>\<open>_server\<close>.
\<close>

theorem merge_tags_cached_dicts_in_place:
  assumes "registry_ok (h, w)"
      and "get_tools_from_clients sdk scripts (h, w) = (Inr all_tools, h1, w1)"
  shows "all_tools = concat (map (cache_of h1) scripts)
       \<and> (\<forall>s \<in> set scripts. \<exists>c l. map_of (mcp_clients h1) s = Some c \<and> tools_cache c = Some l
             \<and> (\<forall>a \<in> set l. a < length (heap w1)
                   \<and> dict_get (heap w1 ! a) ''_server'' = Some (PStr s)))
       \<and> (\<forall>a < length (heap w). \<forall>k. k \<noteq> ''_server'' \<longrightarrow>
             dict_get (heap w1 ! a) k = dict_get (heap w ! a) k)
       \<and> (\<forall>a < length (heap w0). \<forall>k. k \<noteq> ''_server'' \<longrightarrow>
             dict_get (heap (tag_tools s0 ts w0) ! a) k = dict_get (heap w0 ! a) k)
       \<and> get_tools_from_clients sdk scripts (h1, w1) = (Inr all_tools, h1, w1)
       \<and> (get_tools_from_clients sdk scripts2 (h1, w1) = (Inr all2, h2, w2) \<longrightarrow>
            (\<forall>s \<in> set scripts. cache_of h2 s = cache_of h1 s
               \<and> (\<forall>a \<in> set (cache_of h1 s).
                     dict_get (heap w2 ! a) ''_server'' = Some (PStr s))))"
proof -
  from merge_ok[OF assms] have m:
    "registry_ok (h1, w1)" "heap_extends w w1"
    "all_tools = concat (map (cache_of h1) scripts)"
    "\<forall>s \<in> set scripts. \<exists>c1 l. map_of (mcp_clients h1) s = Some c1 \<and> tools_cache c1 = Some l
                \<and> initialized c1 \<and> session c1 \<noteq> None
                \<and> (\<forall>a \<in> set l. a < length (heap w1)
                      \<and> dict_get (heap w1 ! a) ''_server'' = Some (PStr s))"
    by simp_all
  have frame: "\<forall>a < length (heap w). \<forall>k. k \<noteq> ''_server'' \<longrightarrow>
             dict_get (heap w1 ! a) k = dict_get (heap w ! a) k"
    using m(2) by (simp add: heap_extends_def)
  have tagf: "\<forall>a < length (heap w0). \<forall>k. k \<noteq> ''_server'' \<longrightarrow>
             dict_get (heap (tag_tools s0 ts w0) ! a) k = dict_get (heap w0 ! a) k"
    by (simp add: tag_tools_nth dict_get_set)
  have again: "get_tools_from_clients sdk scripts (h1, w1) = (Inr all_tools, h1, w1)"
    using merge_again[OF m(4), of sdk] m(3) by simp
  have later: "get_tools_from_clients sdk scripts2 (h1, w1) = (Inr all2, h2, w2) \<longrightarrow>
            (\<forall>s \<in> set scripts. cache_of h2 s = cache_of h1 s
               \<and> (\<forall>a \<in> set (cache_of h1 s).
                     dict_get (heap w2 ! a) ''_server'' = Some (PStr s)))"
  proof (intro impI ballI)
    fix s assume run: "get_tools_from_clients sdk scripts2 (h1, w1) = (Inr all2, h2, w2)"
      and s: "s \<in> set scripts"
    from merge_ok[OF m(1) run] have n:
      "registry_ok (h2, w2)" "heap_extends w1 w2"
      "\<forall>s c. map_of (mcp_clients h1) s = Some c \<and> tools_cache c \<noteq> None \<longrightarrow>
             map_of (mcp_clients h2) s = Some c"
      by simp_all
    from m(4) s obtain c1 l where c: "map_of (mcp_clients h1) s = Some c1"
      "tools_cache c1 = Some l"
      "\<forall>a \<in> set l. a < length (heap w1) \<and> dict_get (heap w1 ! a) ''_server'' = Some (PStr s)"
      by blast
    have r2: "map_of (mcp_clients h2) s = Some c1" using n(3) c by simp
    have co: "cache_of h1 s = l" "cache_of h2 s = l"
      using c r2 by (simp_all add: cache_of_def cache_list_def)
    have "\<forall>a \<in> set l. dict_get (heap w2 ! a) ''_server'' = Some (PStr s)"
    proof
      fix a assume a: "a \<in> set l"
      with c(3) have "a < length (heap w1)" "dict_get (heap w1 ! a) ''_server'' \<noteq> None"
        by simp_all
      with n(2) have "dict_get (heap w2 ! a) ''_server'' \<noteq> None"
        by (simp add: heap_extends_def)
      then obtain v where v: "dict_get (heap w2 ! a) ''_server'' = Some v" by auto
      have "a \<in> set (cache_list c1)" using a c(2) by (simp add: cache_list_def)
      from registry_okD(2)[OF n(1) r2 this v] v
      show "dict_get (heap w2 ! a) ''_server'' = Some (PStr s)" by simp
    qed
    with co show "cache_of h2 s = cache_of h1 s
               \<and> (\<forall>a \<in> set (cache_of h1 s).
                     dict_get (heap w2 ! a) ''_server'' = Some (PStr s))"
      by simp
  qed
  have cached: "\<forall>s \<in> set scripts. \<exists>c l. map_of (mcp_clients h1) s = Some c \<and> tools_cache c = Some l
             \<and> (\<forall>a \<in> set l. a < length (heap w1)
                   \<and> dict_get (heap w1 ! a) ''_server'' = Some (PStr s))"
    using m(4) by blast
  show ?thesis
    using m(3) cached frame tagf again later by (intro conjI)
qed

text \<open>
  Claim C9. In the list that a merge returns (the list from which the tools passed to
  the model are made, one for one), every descriptor is in the cache of the client of
  one of the scripts, has that script under \<^verbatim>\<open>_server\<close>, and is in the cache of no
  other client. The server found for a tool name is the \<^verbatim>\<open>_server\<close> of the first
  descriptor of the list with that name (\<open>None\<close> if there is none); since the list
  follows the order of the scripts, it is the first script, in that order, whose catalog
  has a tool of that name, also when a later script has one too.
\<close>

theorem merged_catalog_origin_and_first_match:
  assumes "registry_ok (h, w)"
      and "get_tools_from_clients sdk scripts (h, w) = (Inr all_tools, h1, w1)"
  shows "(\<forall>a \<in> set all_tools. \<exists>s \<in> set scripts. a \<in> set (cache_of h1 s)
            \<and> dict_get (heap w1 ! a) ''_server'' = Some (PStr s)
            \<and> (\<forall>s'. a \<in> set (cache_of h1 s') \<longrightarrow> s' = s))
       \<and> (\<forall>i < length scripts.
            (\<forall>j < i. \<forall>a \<in> set (cache_of h1 (scripts ! j)).
                dict_get (heap w1 ! a) ''name'' \<noteq> Some (PStr name))
            \<and> (\<exists>a \<in> set (cache_of h1 (scripts ! i)).
                dict_get (heap w1 ! a) ''name'' = Some (PStr name))
            \<longrightarrow> tool_server (deref w1 all_tools) name = PStr (scripts ! i))
       \<and> tool_server (deref w1 all_tools) name =
           (case find (\<lambda>d. dict_get d ''name'' = Some (PStr name)) (deref w1 all_tools) of
              None \<Rightarrow> PNone
            | Some d \<Rightarrow> (case dict_get d ''_server'' of None \<Rightarrow> PNone | Some v \<Rightarrow> v))"
proof -
  from merge_ok[OF assms] have m:
    "registry_ok (h1, w1)"
    "all_tools = concat (map (cache_of h1) scripts)"
    "\<forall>s \<in> set scripts. \<exists>c1 l. map_of (mcp_clients h1) s = Some c1 \<and> tools_cache c1 = Some l
                \<and> initialized c1 \<and> session c1 \<noteq> None
                \<and> (\<forall>a \<in> set l. a < length (heap w1)
                      \<and> dict_get (heap w1 ! a) ''_server'' = Some (PStr s))"
    by simp_all
  have tagged: "\<And>s a. s \<in> set scripts \<Longrightarrow> a \<in> set (cache_of h1 s) \<Longrightarrow>
      dict_get (heap w1 ! a) ''_server'' = Some (PStr s)"
  proof -
    fix s a assume s: "s \<in> set scripts" and a: "a \<in> set (cache_of h1 s)"
    from m(3) s obtain c1 l where c: "map_of (mcp_clients h1) s = Some c1"
      "tools_cache c1 = Some l"
      "\<forall>a \<in> set l. a < length (heap w1) \<and> dict_get (heap w1 ! a) ''_server'' = Some (PStr s)"
      by blast
    then have "cache_of h1 s = l" by (simp add: cache_of_def cache_list_def)
    with a c(3) show "dict_get (heap w1 ! a) ''_server'' = Some (PStr s)" by simp
  qed
  have unique: "\<And>s s' a. a \<in> set (cache_of h1 s) \<Longrightarrow> a \<in> set (cache_of h1 s') \<Longrightarrow> s' = s"
  proof (rule ccontr)
    fix s s' a assume a: "a \<in> set (cache_of h1 s)" and a': "a \<in> set (cache_of h1 s')"
      and ne: "s' \<noteq> s"
    from cache_of_registered[OF a] obtain c where c: "map_of (mcp_clients h1) s = Some c"
      "a \<in> set (cache_list c)" by blast
    from cache_of_registered[OF a'] obtain c' where c': "map_of (mcp_clients h1) s' = Some c'"
      "a \<in> set (cache_list c')" by blast
    from registry_okD(3)[OF m(1) c(1) c'(1)] ne c(2) c'(2) show False by auto
  qed
  have origin: "\<forall>a \<in> set all_tools. \<exists>s \<in> set scripts. a \<in> set (cache_of h1 s)
            \<and> dict_get (heap w1 ! a) ''_server'' = Some (PStr s)
            \<and> (\<forall>s'. a \<in> set (cache_of h1 s') \<longrightarrow> s' = s)"
  proof
    fix a assume "a \<in> set all_tools"
    with m(2) obtain s where s: "s \<in> set scripts" "a \<in> set (cache_of h1 s)" by auto
    with tagged[OF s] unique[OF s(2)]
    show "\<exists>s \<in> set scripts. a \<in> set (cache_of h1 s)
            \<and> dict_get (heap w1 ! a) ''_server'' = Some (PStr s)
            \<and> (\<forall>s'. a \<in> set (cache_of h1 s') \<longrightarrow> s' = s)"
      by blast
  qed
  have dr: "deref w1 all_tools = concat (map (\<lambda>s. deref w1 (cache_of h1 s)) scripts)"
    using m(2) by (simp add: deref_concat)
  have first: "\<forall>i < length scripts.
            (\<forall>j < i. \<forall>a \<in> set (cache_of h1 (scripts ! j)).
                dict_get (heap w1 ! a) ''name'' \<noteq> Some (PStr name))
            \<and> (\<exists>a \<in> set (cache_of h1 (scripts ! i)).
                dict_get (heap w1 ! a) ''name'' = Some (PStr name))
            \<longrightarrow> tool_server (deref w1 all_tools) name = PStr (scripts ! i)"
  proof (intro allI impI)
    fix i assume i: "i < length scripts"
      and p: "(\<forall>j < i. \<forall>a \<in> set (cache_of h1 (scripts ! j)).
                dict_get (heap w1 ! a) ''name'' \<noteq> Some (PStr name))
            \<and> (\<exists>a \<in> set (cache_of h1 (scripts ! i)).
                dict_get (heap w1 ! a) ''name'' = Some (PStr name))"
    have a1: "\<forall>j < i. \<forall>d \<in> set (deref w1 (cache_of h1 (scripts ! j))).
        dict_get d ''name'' \<noteq> Some (PStr name)"
      using p by (auto simp: deref_def)
    have a2: "\<exists>d \<in> set (deref w1 (cache_of h1 (scripts ! i))). dict_get d ''name'' = Some (PStr name)"
      using p by (auto simp: deref_def)
    have a3: "\<forall>d \<in> set (deref w1 (cache_of h1 (scripts ! i))).
        dict_get d ''_server'' = Some (PStr (scripts ! i))"
      using tagged[of "scripts ! i"] i by (auto simp: deref_def)
    show "tool_server (deref w1 all_tools) name = PStr (scripts ! i)"
      unfolding dr
      by (rule tool_server_concat[where D = "\<lambda>s. deref w1 (cache_of h1 s)", OF i a1 a2 a3])
  qed
  show ?thesis
    using origin first tool_server_find[of "deref w1 all_tools" name] by (intro conjI)
qed


text \<open>The theorem at the merge of the two example servers on the empty world.\<close>

theorem merge_tags_cached_dicts_in_place_witness:
  "registry_ok (\<lparr>mcp_clients = []\<rparr>, empty_world)
   \<and> get_tools_from_clients example_sdk [''agent/server.py'', ''agent/experiment_server.py'']
       (\<lparr>mcp_clients = []\<rparr>, empty_world) = (Inr [0, 1, 2, 3], merged_host, merged_world)
   \<and> cache_of merged_host ''agent/server.py'' = [0, 1]
   \<and> cache_of merged_host ''agent/experiment_server.py'' = [2, 3]
   \<and> dict_get (heap merged_world ! 0) ''_server'' = Some (PStr ''agent/server.py'')
   \<and> dict_get (heap merged_world ! 3) ''_server'' = Some (PStr ''agent/experiment_server.py'')
   \<and> dict_get (heap merged_world ! 3) ''name'' = Some (PStr ''simple_query'')
   \<and> get_tools_from_clients example_sdk [''agent/server.py'', ''agent/experiment_server.py'']
       (merged_host, merged_world) = (Inr [0, 1, 2, 3], merged_host, merged_world)"
  using merge_tags_cached_dicts_in_place[OF registry_ok_empty merge_example,
      where ?scripts2.0 = "[''agent/server.py'', ''agent/experiment_server.py'']"
        and ?all2.0 = "[0, 1, 2, 3]" and ?h2.0 = merged_host and ?w2.0 = merged_world
        and ?w0.0 = merged_world and ?s0.0 = "''agent/server.py''" and ts = "[0, 1]"]
    registry_ok_empty[of empty_world] merge_example
  by (simp add: cache_of_def cache_list_def merged_host_def fetched_client_def
      experiment_client_def merged_world_def dict_get_def)

text \<open>The theorem at the two example servers, which both have a tool named
  \<^verbatim>\<open>simple_query\<close>: the first server wins.\<close>

theorem merged_catalog_origin_and_first_match_witness:
  "registry_ok (\<lparr>mcp_clients = []\<rparr>, empty_world)
   \<and> get_tools_from_clients example_sdk [''agent/server.py'', ''agent/experiment_server.py'']
       (\<lparr>mcp_clients = []\<rparr>, empty_world) = (Inr [0, 1, 2, 3], merged_host, merged_world)
   \<and> dict_get (heap merged_world ! 0) ''name'' = Some (PStr ''simple_query'')
   \<and> dict_get (heap merged_world ! 3) ''name'' = Some (PStr ''simple_query'')
   \<and> tool_server (deref merged_world [0, 1, 2, 3]) ''simple_query'' = PStr ''agent/server.py''
   \<and> tool_server (deref merged_world [0, 1, 2, 3]) ''tool_xy87'' = PStr ''agent/experiment_server.py''"
  using merged_catalog_origin_and_first_match[OF registry_ok_empty merge_example,
      where name = "''simple_query''"]
    merged_catalog_origin_and_first_match[OF registry_ok_empty merge_example,
      where name = "''tool_xy87''"]
    registry_ok_empty[of empty_world] merge_example
  by (simp add: deref_def merged_world_def dict_get_def)


end
